theory Spec2Isabelle
  imports Complex_Main "HOL-Library.Word" "HOL-Library.Log_Nat"
begin

section \<open>JavaScript numbers\<close>

text \<open>
  A JavaScript number is an IEEE 754 double: a finite value, one of the two infinities, or
  NaN. A finite double is a rational number, so the finite values are rationals here, and
  every arithmetic operation computes the exact result and rounds it to the nearest double
  (\<open>fround\<close> below), as the machine does. Division never raises: \<open>x / 0\<close> is an
  infinity and \<open>0 / 0\<close> is NaN, and NaN spreads through every later operation. A field
  that is \<open>undefined\<close> behaves as NaN in every sum below (\<open>0 + undefined\<close> is NaN), so
  NaN also stands for a missing numeric field.

  Negative zero is identified with zero. It differs from zero only as a divisor, and no
  divisor of the functions below can be negative zero: they divide by lengths, by constants,
  by a value tested to be above zero, or by differences and sums of values that are not
  negative zero.
\<close>

datatype jsnum = Finite rat | PosInfinity | NegInfinity | NaN

subsection \<open>Rounding to the nearest double\<close>

text \<open>\<open>2^e\<close> for an integer exponent.\<close>

definition pow2 :: "int \<Rightarrow> rat" where
  "pow2 e = (if 0 \<le> e then of_int (2 ^ nat e) else 1 / of_int (2 ^ nat (- e)))"

text \<open>The nearest integer, a tie going to the even one.\<close>

definition round_half_even :: "rat \<Rightarrow> int" where
  "round_half_even x =
     (let f = \<lfloor>x\<rfloor>; r = x - of_int f
      in if r < 1 / 2 then f else if 1 / 2 < r then f + 1 else if even f then f else f + 1)"

text \<open>
  \<open>floor (log2 x)\<close> for a positive rational \<open>p / q\<close>: the difference of the bit lengths
  of \<open>p\<close> and \<open>q\<close>, or one less.
\<close>

definition ilog2 :: "rat \<Rightarrow> int" where
  "ilog2 x =
     (case quotient_of x of (p, q) \<Rightarrow>
        let k = bitlen p - bitlen q in if pow2 k \<le> x then k else k - 1)"

text \<open>
  The exponent of the unit in the last place of the doubles around a positive \<open>x\<close>: a
  significand has 53 bits, and below \<open>2^-1022\<close> (the subnormal range) the unit stays
  \<open>2^-1074\<close>.
\<close>

definition ulp_exponent :: "rat \<Rightarrow> int" where
  "ulp_exponent x = max (ilog2 x - 52) (- 1074)"

text \<open>
  Round to nearest, ties to even, for a positive \<open>x\<close>: the nearest multiple of the unit in
  the last place; a result of \<open>2^1024\<close> or more is the overflow to \<open>Infinity\<close>.
\<close>

definition fround_pos :: "rat \<Rightarrow> jsnum" where
  "fround_pos x =
     (let e = ulp_exponent x;
          m = round_half_even (x / pow2 e);
          y = of_int m * pow2 e
      in if pow2 1024 \<le> y then PosInfinity else Finite y)"

fun js_neg :: "jsnum \<Rightarrow> jsnum" where
  "js_neg (Finite a) = Finite (- a)"
| "js_neg PosInfinity = NegInfinity"
| "js_neg NegInfinity = PosInfinity"
| "js_neg NaN = NaN"

definition fround :: "rat \<Rightarrow> jsnum" where
  "fround x =
     (if x = 0 then Finite 0 else if 0 < x then fround_pos x else js_neg (fround_pos (- x)))"

text \<open>The rationals that are doubles: rounding leaves them as they are.\<close>

definition is_double :: "rat \<Rightarrow> bool" where
  "is_double x \<longleftrightarrow> fround x = Finite x"


text \<open>
  The unit roundoff \<open>2^-53\<close>, and the relation of a positive exact value \<open>x\<close> to a value
  \<open>y\<close> computed from it with \<open>k\<close> roundings: each of the two is at least the other times
  \<open>(1 - 2^-53)^k\<close>.
\<close>

definition unit_roundoff :: rat where
  "unit_roundoff = 1 / 2 ^ 53"

definition near :: "nat \<Rightarrow> rat \<Rightarrow> rat \<Rightarrow> bool" where
  "near k x y \<longleftrightarrow>
     x * (1 - unit_roundoff) ^ k \<le> y \<and> y * (1 - unit_roundoff) ^ k \<le> x"

subsection \<open>Arithmetic\<close>

fun js_add :: "jsnum \<Rightarrow> jsnum \<Rightarrow> jsnum" where
  "js_add (Finite a) (Finite b) = fround (a + b)"
| "js_add NaN _ = NaN"
| "js_add _ NaN = NaN"
| "js_add PosInfinity NegInfinity = NaN"
| "js_add NegInfinity PosInfinity = NaN"
| "js_add PosInfinity _ = PosInfinity"
| "js_add NegInfinity _ = NegInfinity"
| "js_add (Finite a) b = b"

definition js_sub :: "jsnum \<Rightarrow> jsnum \<Rightarrow> jsnum" where
  "js_sub a b = js_add a (js_neg b)"

text \<open>The sign of a product or quotient with an infinite operand: \<open>0 * Infinity\<close> is NaN.\<close>

definition js_signed_inf :: "rat \<Rightarrow> jsnum" where
  "js_signed_inf s = (if s = 0 then NaN else if 0 < s then PosInfinity else NegInfinity)"

fun js_sign :: "jsnum \<Rightarrow> rat" where
  "js_sign (Finite a) = sgn a"
| "js_sign PosInfinity = 1"
| "js_sign NegInfinity = - 1"
| "js_sign NaN = 0"

fun js_mul :: "jsnum \<Rightarrow> jsnum \<Rightarrow> jsnum" where
  "js_mul (Finite a) (Finite b) = fround (a * b)"
| "js_mul NaN _ = NaN"
| "js_mul _ NaN = NaN"
| "js_mul a b = js_signed_inf (js_sign a * js_sign b)"

text \<open>
  Division: a finite value over zero is an infinity of the sign of the numerator (zero is
  taken as positive zero), \<open>0 / 0\<close> and \<open>Infinity / Infinity\<close> are NaN, and
  a finite value over an infinity is zero.
\<close>

fun js_div :: "jsnum \<Rightarrow> jsnum \<Rightarrow> jsnum" where
  "js_div (Finite a) (Finite b) = (if b = 0 then js_signed_inf a else fround (a / b))"
| "js_div NaN _ = NaN"
| "js_div _ NaN = NaN"
| "js_div (Finite a) _ = Finite 0"
| "js_div PosInfinity (Finite b) = (if b < 0 then NegInfinity else PosInfinity)"
| "js_div NegInfinity (Finite b) = (if b < 0 then PosInfinity else NegInfinity)"
| "js_div _ _ = NaN"

text \<open>\<open>a > b\<close>: every comparison with NaN is false.\<close>

fun js_gt :: "jsnum \<Rightarrow> jsnum \<Rightarrow> bool" where
  "js_gt (Finite a) (Finite b) = (b < a)"
| "js_gt NaN _ = False"
| "js_gt _ NaN = False"
| "js_gt PosInfinity PosInfinity = False"
| "js_gt PosInfinity _ = True"
| "js_gt _ PosInfinity = False"
| "js_gt NegInfinity _ = False"
| "js_gt _ NegInfinity = True"

definition js_lt :: "jsnum \<Rightarrow> jsnum \<Rightarrow> bool" where
  "js_lt a b = js_gt b a"

text \<open>\<open>a >= b\<close> is \<open>a > b\<close> or \<open>a == b\<close>, and NaN equals nothing.\<close>

definition js_ge :: "jsnum \<Rightarrow> jsnum \<Rightarrow> bool" where
  "js_ge a b = (js_gt a b \<or> (a = b \<and> a \<noteq> NaN))"

text \<open>\<open>Math.max\<close> and \<open>Math.min\<close> of two arguments: NaN if either is NaN.\<close>

definition Math_max :: "jsnum \<Rightarrow> jsnum \<Rightarrow> jsnum" where
  "Math_max a b = (if a = NaN \<or> b = NaN then NaN else if js_gt b a then b else a)"

definition Math_min :: "jsnum \<Rightarrow> jsnum \<Rightarrow> jsnum" where
  "Math_min a b = (if a = NaN \<or> b = NaN then NaN else if js_gt a b then b else a)"

text \<open>
  \<open>Math.max(...values)\<close> and \<open>Math.min(...values)\<close> over a spread array: the empty
  array gives \<open>-Infinity\<close> and \<open>Infinity\<close>.
\<close>

definition Math_max_list :: "jsnum list \<Rightarrow> jsnum" where
  "Math_max_list values = foldl Math_max NegInfinity values"

definition Math_min_list :: "jsnum list \<Rightarrow> jsnum" where
  "Math_min_list values = foldl Math_min PosInfinity values"

text \<open>
  \<open>Math.round\<close>: the nearest integer, a tie going up (\<open>floor (x + 1/2)\<close>). The result
  is exact: a double below \<open>2^52\<close> in magnitude rounds to an integer that is a double, and
  a larger double is an integer already.
\<close>

fun Math_round :: "jsnum \<Rightarrow> jsnum" where
  "Math_round (Finite a) = Finite (of_int \<lfloor>a + 1 / 2\<rfloor>)"
| "Math_round x = x"

text \<open>\<open>Math.pow(x, 2)\<close>: the square, rounded once.\<close>

definition Math_pow2 :: "jsnum \<Rightarrow> jsnum" where
  "Math_pow2 x = js_mul x x"

text \<open>\<open>values.reduce((sum, val) => sum + val, 0)\<close>.\<close>

definition js_sum :: "jsnum list \<Rightarrow> jsnum" where
  "js_sum values = foldl (\<lambda>sum val. js_add sum val) (Finite 0) values"

text \<open>
  A length, an index or a count is a whole number below \<open>2^53\<close> (an array has fewer than
  \<open>2^32\<close> elements, a string fewer than \<open>2^53\<close> code units), which is a double.
\<close>

definition js_length :: "'a list \<Rightarrow> jsnum" where
  "js_length xs = Finite (of_nat (length xs))"

section \<open>Session aggregation (analytics component)\<close>

subsection \<open>Variance and consistency score\<close>

text \<open>
  \<^verbatim>\<open>
  calculateVariance(values) {
      if (values.length === 0) return 0;
      const mean = values.reduce((sum, val) => sum + val, 0) / values.length;
      const squaredDiffs = values.map(val => Math.pow(val - mean, 2));
      return squaredDiffs.reduce((sum, val) => sum + val, 0) / values.length;
  }
  \<close>
\<close>

definition calculateVariance :: "jsnum list \<Rightarrow> jsnum" where
  "calculateVariance values =
     (if length values = 0 then Finite 0
      else let mean = js_div (js_sum values) (js_length values);
               squaredDiffs = map (\<lambda>val. Math_pow2 (js_sub val mean)) values
           in js_div (js_sum squaredDiffs) (js_length values))"

text \<open>
  The consistency score of \<open>updateDetailedStats\<close> and of the radar chart:
  \<open>Math.max(0, 100 - (variance / 10))\<close> with the variance of the WPM values.
\<close>

definition consistencyScore :: "jsnum list \<Rightarrow> jsnum" where
  "consistencyScore wpmValues =
     (let variance = calculateVariance wpmValues
      in Math_max (Finite 0) (js_sub (Finite 100) (js_div variance (Finite 10))))"

subsection \<open>Session records\<close>

text \<open>
  A session of \<open>data.history\<close>, with the fields the aggregations below read. A
  \<open>difficulty\<close> that is missing (\<open>undefined\<close> or \<open>null\<close>) is \<open>None\<close>.
\<close>

record session =
  wpm :: jsnum
  accuracy :: jsnum
  difficulty :: "string option"

text \<open>
  \<open>session[metric]\<close>: \<open>calculateChange\<close> is called with the keys \<open>'wpm'\<close> and
  \<open>'accuracy'\<close>.
\<close>

datatype metric = Wpm | Accuracy

fun session_metric :: "metric \<Rightarrow> session \<Rightarrow> jsnum" where
  "session_metric Wpm s = wpm s"
| "session_metric Accuracy s = accuracy s"

subsection \<open>Change percentage\<close>

text \<open>
  \<^verbatim>\<open>
  calculateChange(metric) {
      if (!this.data.history || this.data.history.length < 10) return 0;
      const recent = this.data.history.slice(0, 5);
      const older = this.data.history.slice(-5);
      const recentAvg = recent.reduce((sum, session) => sum + session[metric], 0) / recent.length;
      const olderAvg = older.reduce((sum, session) => sum + session[metric], 0) / older.length;
      return olderAvg > 0 ? Math.round(((recentAvg - olderAvg) / olderAvg) * 100) : 0;
  }
  \<close>
  \<open>this.data.history\<close> is the argument \<open>history\<close>, \<open>None\<close> when it is not set.
  \<open>slice(0, 5)\<close> is \<open>take 5\<close> and \<open>slice(-5)\<close> keeps the last five elements.
\<close>

definition metric_avg :: "metric \<Rightarrow> session list \<Rightarrow> jsnum" where
  "metric_avg metric sessions =
     js_div (foldl (\<lambda>sum session. js_add sum (session_metric metric session)) (Finite 0) sessions)
            (js_length sessions)"

definition calculateChange :: "session list option \<Rightarrow> metric \<Rightarrow> jsnum" where
  "calculateChange data_history metric =
     (case data_history of
        None \<Rightarrow> Finite 0
      | Some history \<Rightarrow>
          if length history < 10 then Finite 0
          else let recent = take 5 history;
                   older = drop (length history - 5) history;
                   recentAvg = metric_avg metric recent;
                   olderAvg = metric_avg metric older
               in if js_gt olderAvg (Finite 0)
                  then Math_round (js_mul (js_div (js_sub recentAvg olderAvg) olderAvg) (Finite 100))
                  else Finite 0)"

subsection \<open>Difficulty breakdown\<close>

text \<open>
  \<^verbatim>\<open>
  calculateDifficultyStats(sessions) {
      const stats = { easy: [], medium: [], hard: [] };
      sessions.forEach(session => {
          const difficulty = session.difficulty || 'medium';
          if (stats[difficulty]) {
              stats[difficulty].push(session);
          }
      });
      return Object.keys(stats).map(difficulty => ({
          difficulty,
          count: stats[difficulty].length,
          avgWpm: stats[difficulty].length > 0
              ? stats[difficulty].reduce((sum, s) => sum + s.wpm, 0) / stats[difficulty].length
              : 0,
          avgAccuracy: stats[difficulty].length > 0
              ? stats[difficulty].reduce((sum, s) => sum + s.accuracy, 0) / stats[difficulty].length
              : 0
      }));
  }
  \<close>
  \<open>stats\<close> is an object literal, here an association list in the order of its keys.
  \<open>stats[difficulty]\<close> finds an own key (an array, which is truthy even when empty), or a
  property inherited from \<open>Object.prototype\<close> (truthy, and without a \<open>push\<close> method, so
  that the call raises a TypeError), or nothing (\<open>undefined\<close>: the session is skipped).
\<close>

datatype js_error = TypeError

definition Object_prototype_keys :: "string list" where
  "Object_prototype_keys =
     [''constructor'', ''__defineGetter__'', ''__defineSetter__'', ''hasOwnProperty'',
      ''__lookupGetter__'', ''__lookupSetter__'', ''isPrototypeOf'', ''propertyIsEnumerable'',
      ''toString'', ''valueOf'', ''__proto__'', ''toLocaleString'']"

text \<open>\<open>session.difficulty || 'medium'\<close>: a missing or empty string is falsy.\<close>

definition difficulty_or_medium :: "session \<Rightarrow> string" where
  "difficulty_or_medium s =
     (case difficulty s of None \<Rightarrow> ''medium'' | Some d \<Rightarrow> if d = [] then ''medium'' else d)"

definition push_session ::
  "(string \<times> session list) list \<Rightarrow> session \<Rightarrow> js_error + (string \<times> session list) list" where
  "push_session stats s =
     (let d = difficulty_or_medium s
      in case map_of stats d of
           Some _ \<Rightarrow> Inr (map (\<lambda>(k, arr). if k = d then (k, arr @ [s]) else (k, arr)) stats)
         | None \<Rightarrow> if d \<in> set Object_prototype_keys then Inl TypeError else Inr stats)"

fun forEach_session ::
  "(string \<times> session list) list \<Rightarrow> session list \<Rightarrow> js_error + (string \<times> session list) list" where
  "forEach_session stats [] = Inr stats"
| "forEach_session stats (s # ss) =
     (case push_session stats s of Inl e \<Rightarrow> Inl e | Inr stats' \<Rightarrow> forEach_session stats' ss)"

record difficulty_stat =
  stat_difficulty :: string
  count :: nat
  avgWpm :: jsnum
  avgAccuracy :: jsnum

definition group_stat :: "string \<times> session list \<Rightarrow> difficulty_stat" where
  "group_stat kv =
     (case kv of (d, arr) \<Rightarrow>
        \<lparr> stat_difficulty = d,
          count = length arr,
          avgWpm = (if length arr > 0
                    then js_div (foldl (\<lambda>sum s. js_add sum (wpm s)) (Finite 0) arr) (js_length arr)
                    else Finite 0),
          avgAccuracy = (if length arr > 0
                    then js_div (foldl (\<lambda>sum s. js_add sum (accuracy s)) (Finite 0) arr) (js_length arr)
                    else Finite 0) \<rparr>)"

definition calculateDifficultyStats :: "session list \<Rightarrow> js_error + difficulty_stat list" where
  "calculateDifficultyStats sessions =
     (case forEach_session [(''easy'', []), (''medium'', []), (''hard'', [])] sessions of
        Inl e \<Rightarrow> Inl e
      | Inr stats \<Rightarrow> Inr (map group_stat stats))"

section \<open>Trend and distribution (analytics component)\<close>

subsection \<open>Linear regression\<close>

text \<open>
  \<^verbatim>\<open>
  calculateLinearRegression(values) {
      const n = values.length;
      const x = Array.from({ length: n }, (_, i) => i);
      const y = values;
      const sumX = x.reduce((sum, val) => sum + val, 0);
      const sumY = y.reduce((sum, val) => sum + val, 0);
      const sumXY = x.reduce((sum, val, i) => sum + val * y[i], 0);
      const sumXX = x.reduce((sum, val) => sum + val * val, 0);
      const slope = (n * sumXY - sumX * sumY) / (n * sumXX - sumX * sumX);
      const intercept = (sumY - slope * sumX) / n;
      return x.map(val => slope * val + intercept);
  }
  \<close>
  \<open>x\<close> and \<open>y\<close> have the same length, so \<open>y[i]\<close> is always in range and the third
  reduction runs over the pairs \<open>(x[i], y[i])\<close>.
\<close>

definition regression_x :: "jsnum list \<Rightarrow> jsnum list" where
  "regression_x values = map (\<lambda>i. Finite (of_nat i)) [0..<length values]"

definition sumX :: "jsnum list \<Rightarrow> jsnum" where
  "sumX values = js_sum (regression_x values)"

definition sumY :: "jsnum list \<Rightarrow> jsnum" where
  "sumY values = js_sum values"

definition sumXY :: "jsnum list \<Rightarrow> jsnum" where
  "sumXY values =
     foldl (\<lambda>sum (val, yi). js_add sum (js_mul val yi)) (Finite 0) (zip (regression_x values) values)"

definition sumXX :: "jsnum list \<Rightarrow> jsnum" where
  "sumXX values = foldl (\<lambda>sum val. js_add sum (js_mul val val)) (Finite 0) (regression_x values)"

definition regression_denominator :: "jsnum list \<Rightarrow> jsnum" where
  "regression_denominator values =
     js_sub (js_mul (js_length values) (sumXX values)) (js_mul (sumX values) (sumX values))"

definition slope :: "jsnum list \<Rightarrow> jsnum" where
  "slope values =
     js_div (js_sub (js_mul (js_length values) (sumXY values)) (js_mul (sumX values) (sumY values)))
            (regression_denominator values)"

definition intercept :: "jsnum list \<Rightarrow> jsnum" where
  "intercept values =
     js_div (js_sub (sumY values) (js_mul (slope values) (sumX values))) (js_length values)"

definition calculateLinearRegression :: "jsnum list \<Rightarrow> jsnum list" where
  "calculateLinearRegression values =
     map (\<lambda>val. js_add (js_mul (slope values) val) (intercept values)) (regression_x values)"

subsection \<open>Histogram\<close>

text \<open>
  \<^verbatim>\<open>
  createHistogramBins(values, binCount) {
      if (values.length === 0) return [];
      const min = Math.min(...values);
      const max = Math.max(...values);
      const binWidth = (max - min) / binCount;
      const bins = [];
      for (let i = 0; i < binCount; i++) {
          const binMin = Math.round(min + i * binWidth);
          const binMax = Math.round(min + (i + 1) * binWidth);
          const count = values.filter(v => v >= binMin && v < binMax).length;
          bins.push({ min: binMin, max: binMax, count: count });
      }
      return bins;
  }
  \<close>
\<close>

record bin =
  bin_min :: jsnum
  bin_max :: jsnum
  bin_count :: nat

function histogram_loop :: "jsnum list \<Rightarrow> jsnum \<Rightarrow> jsnum \<Rightarrow> nat \<Rightarrow> nat \<Rightarrow> bin list \<Rightarrow> bin list" where
  "histogram_loop values minv binWidth binCount i bins =
     (if i < binCount
      then let binMin = Math_round (js_add minv (js_mul (Finite (of_nat i)) binWidth));
               binMax = Math_round (js_add minv (js_mul (Finite (of_nat (i + 1))) binWidth));
               cnt = length (filter (\<lambda>v. js_ge v binMin \<and> js_lt v binMax) values)
           in histogram_loop values minv binWidth binCount (i + 1)
                (bins @ [\<lparr> bin_min = binMin, bin_max = binMax, bin_count = cnt \<rparr>])
      else bins)"
  by pat_completeness auto
termination
  by (relation "measure (\<lambda>(values, minv, binWidth, binCount, i, bins). binCount - i)") auto

declare histogram_loop.simps [simp del]

definition createHistogramBins :: "jsnum list \<Rightarrow> nat \<Rightarrow> bin list" where
  "createHistogramBins values binCount =
     (if length values = 0 then []
      else let minv = Math_min_list values;
               maxv = Math_max_list values;
               binWidth = js_div (js_sub maxv minv) (Finite (of_nat binCount))
           in histogram_loop values minv binWidth binCount 0 [])"

section \<open>Live typing test (application component)\<close>

subsection \<open>Strings\<close>

text \<open>
  A JavaScript string is a sequence of 16-bit code units: \<open>length\<close> counts them and
  \<open>input[i] === prompt[i]\<close> compares them. \<open>ascii\<close> writes a string literal of
  ASCII characters as such a sequence.
\<close>

definition ascii :: "string \<Rightarrow> 16 word list" where
  "ascii s = map of_char s"

text \<open>
  The code units that the regular expression class \<open>\s\<close> matches and that \<open>trim()\<close>
  strips: tab, line feed, vertical tab, form feed, carriage return, space, no-break space,
  the Unicode space separators, the line and paragraph separators and the byte order mark.
\<close>

definition is_whitespace :: "16 word \<Rightarrow> bool" where
  "is_whitespace c =
     (c \<in> {0x09, 0x0A, 0x0B, 0x0C, 0x0D, 0x20, 0xA0, 0x1680, 0x2028, 0x2029, 0x202F, 0x205F,
            0x3000, 0xFEFF}
      \<or> (0x2000 \<le> c \<and> c \<le> 0x200A))"

definition trim :: "16 word list \<Rightarrow> 16 word list" where
  "trim s = rev (dropWhile is_whitespace (rev (dropWhile is_whitespace s)))"

text \<open>
  \<open>s.split(/\s+/)\<close>: the pieces of \<open>s\<close> between the maximal runs of whitespace. The
  scan keeps the piece read so far; a run of whitespace closes it (also when it is empty,
  at the start of the string), and the end of the string closes the last piece, so that the
  empty string splits into one empty piece.
\<close>

function split_whitespace_from :: "16 word list \<Rightarrow> 16 word list \<Rightarrow> 16 word list list" where
  "split_whitespace_from piece [] = [piece]"
| "split_whitespace_from piece (c # cs) =
     (if is_whitespace c then piece # split_whitespace_from [] (dropWhile is_whitespace cs)
      else split_whitespace_from (piece @ [c]) cs)"
  by pat_completeness auto
termination
  by (relation "measure (\<lambda>(piece, s). length s)")
     (auto simp: length_dropWhile_le less_Suc_eq_le)

definition split_whitespace :: "16 word list \<Rightarrow> 16 word list list" where
  "split_whitespace s = split_whitespace_from [] s"

text \<open>\<open>input.trim().split(/\s+/).length\<close>, the \<open>words\<close> of both computations.\<close>

definition words :: "16 word list \<Rightarrow> nat" where
  "words input = length (split_whitespace (trim input))"

text \<open>
  The word count as the specification words it, for comparison with \<open>words\<close>: split on
  runs of whitespace and count the non-empty tokens.
\<close>

definition wordCount :: "16 word list \<Rightarrow> nat" where
  "wordCount typed = length (filter (\<lambda>token. token \<noteq> []) (split_whitespace typed))"

text \<open>
  The same number read off the string itself: the code units that are not whitespace and
  that start the string or follow a whitespace code unit. \<open>inside\<close> tells whether the
  code unit before was part of a token.
\<close>

fun count_tokens :: "bool \<Rightarrow> 16 word list \<Rightarrow> nat" where
  "count_tokens inside [] = 0"
| "count_tokens inside (c # cs) =
     (if is_whitespace c then count_tokens False cs
      else (if inside then 0 else 1) + count_tokens True cs)"

subsection \<open>Metrics\<close>

text \<open>
  \<^verbatim>\<open>
  let correctChars = 0;
  for (let i = 0; i < Math.min(input.length, prompt.length); i++) {
      if (input[i] === prompt[i]) correctChars++;
  }
  \<close>
\<close>

function correctChars_loop :: "16 word list \<Rightarrow> 16 word list \<Rightarrow> nat \<Rightarrow> nat \<Rightarrow> nat" where
  "correctChars_loop input prompt i correctChars =
     (if i < min (length input) (length prompt)
      then correctChars_loop input prompt (i + 1)
             (if input ! i = prompt ! i then correctChars + 1 else correctChars)
      else correctChars)"
  by pat_completeness auto
termination
  by (relation "measure (\<lambda>(input, prompt, i, correctChars).
                   min (length input) (length prompt) - i)") auto

declare correctChars_loop.simps [simp del]

definition correctChars :: "16 word list \<Rightarrow> 16 word list \<Rightarrow> nat" where
  "correctChars input prompt = correctChars_loop input prompt 0 0"

record metrics =
  metrics_wpm :: jsnum
  metrics_accuracy :: jsnum
  progress :: jsnum
  errors :: jsnum
  elapsedTime :: jsnum

text \<open>
  The live computation of \<open>calculateLocalMetrics\<close>, after its guard. \<open>elapsed\<close> is
  the difference of the two time values of \<open>new Date() - startTime\<close>, whole numbers of
  milliseconds, which the subtraction rounds to a double.
  \<^verbatim>\<open>
  const elapsedMinutes = (new Date() - startTime) / (1000 * 60);
  const words = input.trim().split(/\s+/).length;
  const wpm = elapsedMinutes > 0 ? Math.round(words / elapsedMinutes) : 0;
  ...
  const accuracy = prompt.length > 0 ? Math.round((correctChars / prompt.length) * 100) : 100;
  const progress = Math.min((input.length / prompt.length) * 100, 100);
  const errors = input.length - correctChars;
  \<close>
\<close>

definition elapsedMinutes :: "int \<Rightarrow> jsnum" where
  "elapsedMinutes elapsed = js_div (fround (of_int elapsed)) (Finite (1000 * 60))"

definition local_wpm :: "16 word list \<Rightarrow> int \<Rightarrow> jsnum" where
  "local_wpm input elapsed =
     (if js_gt (elapsedMinutes elapsed) (Finite 0)
      then Math_round (js_div (Finite (of_nat (words input))) (elapsedMinutes elapsed))
      else Finite 0)"

definition local_accuracy :: "16 word list \<Rightarrow> 16 word list \<Rightarrow> jsnum" where
  "local_accuracy prompt input =
     (if length prompt > 0
      then Math_round (js_mul (js_div (Finite (of_nat (correctChars input prompt))) (js_length prompt))
                              (Finite 100))
      else Finite 100)"

definition local_metrics :: "16 word list \<Rightarrow> int \<Rightarrow> 16 word list \<Rightarrow> metrics" where
  "local_metrics prompt elapsed input =
     \<lparr> metrics_wpm = local_wpm input elapsed,
       metrics_accuracy = local_accuracy prompt input,
       progress = Math_min (js_mul (js_div (js_length input) (js_length prompt)) (Finite 100))
                           (Finite 100),
       errors = js_sub (js_length input) (Finite (of_nat (correctChars input prompt))),
       elapsedTime = js_mul (elapsedMinutes elapsed) (Finite 60) \<rparr>"

text \<open>
  The final computation of \<open>submitTest\<close>: neither the rounding nor the guards of the live
  one.
  \<^verbatim>\<open>
  const elapsedSeconds = (endTime - startTime) / 1000;
  const words = input.trim().split(/\s+/).length;
  const wpm = (words / (elapsedSeconds / 60));
  ...
  const accuracy = (correctChars / this.state.currentTest.prompt.length) * 100;
  const errors = input.length - correctChars;
  const submissionData = {
      wpm: Math.round(wpm * 100) / 100,
      accuracy: Math.round(accuracy * 100) / 100,
      difficulty: this.state.currentTest.difficulty,
      errors: errors,
      characters_typed: input.length,
      time_taken: elapsedSeconds
  };
  \<close>
\<close>

definition elapsedSeconds :: "int \<Rightarrow> jsnum" where
  "elapsedSeconds elapsed = js_div (fround (of_int elapsed)) (Finite 1000)"

definition submit_wpm :: "16 word list \<Rightarrow> int \<Rightarrow> jsnum" where
  "submit_wpm input elapsed =
     js_div (Finite (of_nat (words input))) (js_div (elapsedSeconds elapsed) (Finite 60))"

definition submit_accuracy :: "16 word list \<Rightarrow> 16 word list \<Rightarrow> jsnum" where
  "submit_accuracy prompt input =
     js_mul (js_div (Finite (of_nat (correctChars input prompt))) (js_length prompt)) (Finite 100)"

record submission =
  submission_wpm :: jsnum
  submission_accuracy :: jsnum
  submission_difficulty :: string
  submission_errors :: jsnum
  characters_typed :: jsnum
  time_taken :: jsnum

definition round2 :: "jsnum \<Rightarrow> jsnum" where
  "round2 v = js_div (Math_round (js_mul v (Finite 100))) (Finite 100)"

definition submissionData :: "16 word list \<Rightarrow> string \<Rightarrow> int \<Rightarrow> 16 word list \<Rightarrow> submission" where
  "submissionData prompt test_difficulty elapsed input =
     \<lparr> submission_wpm = round2 (submit_wpm input elapsed),
       submission_accuracy = round2 (submit_accuracy prompt input),
       submission_difficulty = test_difficulty,
       submission_errors = js_sub (js_length input) (Finite (of_nat (correctChars input prompt))),
       characters_typed = js_length input,
       time_taken = elapsedSeconds elapsed \<rparr>"

subsection \<open>Application state and the session timer\<close>

text \<open>
  The part of \<open>this.state\<close> that the test lifecycle reads and writes, together with the
  browser's table of repeating timers: \<open>setInterval\<close> registers a callback under a fresh
  handle (a positive number, so a handle is truthy and \<open>timer\<close> is \<open>None\<close> exactly when
  \<open>this.state.timer\<close> is \<open>null\<close>), \<open>clearInterval\<close> removes it, and the handles in
  \<open>intervals\<close> are the timers that still tick.
\<close>

record test =
  prompt :: "16 word list"
  test_difficulty :: string
  startTime :: "int option"

record app =
  isAuthenticated :: bool
  currentTest :: "test option"
  timer :: "nat option"
  metrics :: metrics
  intervals :: "nat set"
  next_handle :: nat

definition initial_metrics :: metrics where
  "initial_metrics =
     \<lparr> metrics_wpm = Finite 0, metrics_accuracy = Finite 100, progress = Finite 0,
       errors = Finite 0, elapsedTime = Finite 0 \<rparr>"

definition initial_app :: app where
  "initial_app =
     \<lparr> isAuthenticated = False, currentTest = None, timer = None, metrics = initial_metrics,
       intervals = {}, next_handle = 1 \<rparr>"

definition clearInterval :: "nat \<Rightarrow> app \<Rightarrow> app" where
  "clearInterval h st = st\<lparr>intervals := intervals st - {h}\<rparr>"

definition setInterval :: "app \<Rightarrow> nat \<times> app" where
  "setInterval st =
     (next_handle st,
      st\<lparr>intervals := insert (next_handle st) (intervals st), next_handle := next_handle st + 1\<rparr>)"

text \<open>
  \<^verbatim>\<open>
  startTimer() {
      if (this.state.timer) { clearInterval(this.state.timer); }
      this.state.timer = setInterval(() => { ... }, 1000);
  }
  \<close>
\<close>

definition startTimer :: "app \<Rightarrow> app" where
  "startTimer st =
     (let st1 = (case timer st of Some h \<Rightarrow> clearInterval h st | None \<Rightarrow> st);
          (h', st2) = setInterval st1
      in st2\<lparr>timer := Some h'\<rparr>)"

text \<open>
  \<^verbatim>\<open>
  finishTest() {
      if (this.state.timer) { clearInterval(this.state.timer); this.state.timer = null; }
      ... (buttons and input field)
  }
  \<close>
\<close>

definition finishTest :: "app \<Rightarrow> app" where
  "finishTest st =
     (case timer st of Some h \<Rightarrow> (clearInterval h st)\<lparr>timer := None\<rparr> | None \<Rightarrow> st)"

definition resetMetrics :: "app \<Rightarrow> app" where
  "resetMetrics st = st\<lparr>metrics := initial_metrics\<rparr>"

text \<open>
  \<^verbatim>\<open>
  resetTest() {
      if (this.state.timer) { clearInterval(this.state.timer); this.state.timer = null; }
      this.state.currentTest = null;
      ... (buttons and input field)
      this.resetMetrics();
      this.updateTimer('00:00');
  }
  \<close>
\<close>

definition resetTest :: "app \<Rightarrow> app" where
  "resetTest st =
     (let st1 = (case timer st of Some h \<Rightarrow> (clearInterval h st)\<lparr>timer := None\<rparr> | None \<Rightarrow> st)
      in resetMetrics (st1\<lparr>currentTest := None\<rparr>))"

text \<open>
  \<^verbatim>\<open>
  logout() {
      this.state.isAuthenticated = false;
      this.state.currentUser = null;
      this.token = null;
      ... (local storage)
      if (this.state.timer) { clearInterval(this.state.timer); }
      location.reload();
  }
  \<close>
  The handle stays in \<open>this.state.timer\<close>; the reload that follows is not modelled.
\<close>

definition logout :: "app \<Rightarrow> app" where
  "logout st =
     (let st1 = st\<lparr>isAuthenticated := False\<rparr>
      in case timer st1 of Some h \<Rightarrow> clearInterval h st1 | None \<Rightarrow> st1)"

text \<open>
  \<open>startNewTest\<close> with the prompt that the server returned (\<open>None\<close> when the request
  failed: the state is left as it was), followed by \<open>setupTest\<close>.
\<close>

definition startNewTest :: "(16 word list \<times> string) option \<Rightarrow> app \<Rightarrow> app" where
  "startNewTest response st =
     (case response of
        None \<Rightarrow> st
      | Some (p, d) \<Rightarrow>
          resetMetrics (st\<lparr>currentTest := Some \<lparr> prompt = p, test_difficulty = d, startTime = None \<rparr>\<rparr>))"

text \<open>
  \<^verbatim>\<open>
  calculateLocalMetrics(input) {
      if (!this.state.currentTest || !this.state.currentTest.startTime) return;
      ...
      this.state.metrics = { wpm, accuracy, progress, errors, elapsedTime: elapsedMinutes * 60 };
  }
  \<close>
  \<open>now\<close> is the clock reading of \<open>new Date()\<close>, in milliseconds.
\<close>

definition calculateLocalMetrics :: "int \<Rightarrow> 16 word list \<Rightarrow> app \<Rightarrow> app" where
  "calculateLocalMetrics now input st =
     (case currentTest st of
        None \<Rightarrow> st
      | Some t \<Rightarrow>
          (case startTime t of
             None \<Rightarrow> st
           | Some start \<Rightarrow> st\<lparr>metrics := local_metrics (prompt t) (now - start) input\<rparr>))"

text \<open>
  \<^verbatim>\<open>
  handleTyping(input) {
      if (!this.state.currentTest) return;
      if (!this.state.currentTest.startTime) {
          this.state.currentTest.startTime = new Date().toISOString();
          this.startTimer();
      }
      ... (socket update)
      this.calculateLocalMetrics(input);
      if (input.length >= this.state.currentTest.prompt.length) {
          setTimeout(() => this.submitTest(), 1000);
      }
  }
  \<close>
  The delayed \<open>submitTest\<close> is a later \<open>Submit\<close> event of the machine below.
\<close>

definition handleTyping :: "int \<Rightarrow> 16 word list \<Rightarrow> app \<Rightarrow> app" where
  "handleTyping now input st =
     (case currentTest st of
        None \<Rightarrow> st
      | Some t \<Rightarrow>
          let st1 = (case startTime t of
                       None \<Rightarrow> startTimer (st\<lparr>currentTest := Some (t\<lparr>startTime := Some now\<rparr>)\<rparr>)
                     | Some _ \<Rightarrow> st)
          in calculateLocalMetrics now input st1)"

text \<open>
  \<open>submitTest\<close>: the guard, the payload, and \<open>finishTest\<close> when the server accepted the
  submission (\<open>response_ok\<close>); a refused or failed request leaves the state as it was.
  \<open>new Date(startTime)\<close> of a \<open>null\<close> start time is the epoch.
\<close>

definition submit_payload :: "int \<Rightarrow> 16 word list \<Rightarrow> app \<Rightarrow> submission option" where
  "submit_payload now input st =
     (case currentTest st of
        None \<Rightarrow> None
      | Some t \<Rightarrow>
          if \<not> isAuthenticated st then None
          else Some (submissionData (prompt t) (test_difficulty t)
                       (now - (case startTime t of None \<Rightarrow> 0 | Some start \<Rightarrow> start)) input))"

definition submitTest :: "int \<Rightarrow> 16 word list \<Rightarrow> bool \<Rightarrow> app \<Rightarrow> app" where
  "submitTest now input response_ok st =
     (case currentTest st of
        None \<Rightarrow> st
      | Some t \<Rightarrow>
          if \<not> isAuthenticated st then st
          else if response_ok then finishTest st else st)"

text \<open>
  The callback of the session timer, which runs only while its handle is registered:
  \<^verbatim>\<open>
  if (this.state.currentTest && this.state.currentTest.startTime) {
      const elapsed = new Date() - new Date(this.state.currentTest.startTime);
      ... (timer display)
      if (elapsed > this.config.timeoutDuration) { this.submitTest(); }
  }
  \<close>
\<close>

definition timeoutDuration :: int where
  "timeoutDuration = 300000"

definition timer_tick :: "int \<Rightarrow> 16 word list \<Rightarrow> bool \<Rightarrow> app \<Rightarrow> app" where
  "timer_tick now input response_ok st =
     (if intervals st = {} then st
      else case currentTest st of
             None \<Rightarrow> st
           | Some t \<Rightarrow>
               (case startTime t of
                  None \<Rightarrow> st
                | Some start \<Rightarrow>
                    if now - start > timeoutDuration then submitTest now input response_ok st
                    else st))"

text \<open>
  The events that reach the application, in any order and any number: a successful login,
  a logout, a request for a new test, a change of the input field, a submission (manual,
  or the delayed one after completion), a reset, a tick of the timer.
\<close>

datatype event =
    Login
  | Logout
  | StartNewTest "(16 word list \<times> string) option"
  | Typing int "16 word list"
  | Submit int "16 word list" bool
  | Reset
  | Tick int "16 word list" bool

fun step :: "app \<Rightarrow> event \<Rightarrow> app" where
  "step st Login = st\<lparr>isAuthenticated := True\<rparr>"
| "step st Logout = logout st"
| "step st (StartNewTest response) = startNewTest response st"
| "step st (Typing now input) = handleTyping now input st"
| "step st (Submit now input response_ok) = submitTest now input response_ok st"
| "step st Reset = resetTest st"
| "step st (Tick now input response_ok) = timer_tick now input response_ok st"

definition run :: "event list \<Rightarrow> app" where
  "run events = foldl step initial_app events"

section \<open>Properties\<close>

subsection \<open>Rounding to the nearest double\<close>

lemma pow2_powi: "pow2 e = 2 powi e"
proof (cases "0 \<le> e")
  case True
  then show ?thesis by (simp add: pow2_def power_int_def)
next
  case False
  have "inverse (2::rat) ^ nat (- e) = 1 / 2 ^ nat (- e)"
    by (simp add: power_one_over inverse_eq_divide)
  with False show ?thesis by (simp add: pow2_def power_int_def)
qed

lemma pow2_pos [simp]: "0 < pow2 e"
  by (simp add: pow2_powi)

lemma pow2_nonzero [simp]: "pow2 e \<noteq> 0"
  using pow2_pos [of e] by linarith

lemma pow2_add: "pow2 (a + b) = pow2 a * pow2 b"
  by (simp add: pow2_powi power_int_add)

lemma pow2_diff: "pow2 (a - b) = pow2 a / pow2 b"
  by (simp add: pow2_powi power_int_diff)

lemma pow2_mono: "a \<le> b \<Longrightarrow> pow2 a \<le> pow2 b"
  by (simp add: pow2_powi power_int_increasing)

lemma pow2_strict_mono: "a < b \<Longrightarrow> pow2 a < pow2 b"
  by (simp add: pow2_powi power_int_strict_increasing)

lemma pow2_le_iff: "pow2 a \<le> pow2 b \<longleftrightarrow> a \<le> b"
  using pow2_mono [of a b] pow2_strict_mono [of b a] by (auto simp: not_le [symmetric])

lemma pow2_less_iff: "pow2 a < pow2 b \<longleftrightarrow> a < b"
  using pow2_le_iff [of b a] by (auto simp: not_le [symmetric])

lemma pow2_nat: "0 \<le> e \<Longrightarrow> pow2 e = of_int (2 ^ nat e)"
  by (simp add: pow2_def)

lemma bitlen_pow2_bounds:
  assumes "0 < p"
  shows "pow2 (bitlen p - 1) \<le> of_int p" and "of_int p < pow2 (bitlen p)"
proof -
  have b: "1 \<le> bitlen p"
    using assms by (simp add: bitlen_alt_def)
  have "2 ^ nat (bitlen p - 1) \<le> p" and "p < 2 ^ nat (bitlen p)"
    using bitlen_bounds [OF assms] by simp_all
  then have "(of_int (2 ^ nat (bitlen p - 1)) :: rat) \<le> of_int p"
    and "(of_int p :: rat) < of_int (2 ^ nat (bitlen p))"
    by (simp_all only: of_int_le_iff of_int_less_iff)
  then show "pow2 (bitlen p - 1) \<le> of_int p" and "of_int p < pow2 (bitlen p)"
    using b by (simp_all add: pow2_nat)
qed

lemma ilog2_bounds:
  assumes "0 < x"
  shows "pow2 (ilog2 x) \<le> x" and "x < pow2 (ilog2 x + 1)"
proof -
  obtain p q where pq: "quotient_of x = (p, q)"
    by (cases "quotient_of x")
  have q: "0 < q"
    by (rule quotient_of_denom_pos [OF pq])
  have x: "x = of_int p / of_int q"
    by (rule quotient_of_div [OF pq])
  have p: "0 < p"
    using assms q unfolding x by (simp add: zero_less_divide_iff)
  define k where "k = bitlen p - bitlen q"
  note bp = bitlen_pow2_bounds [OF p] and bq = bitlen_pow2_bounds [OF q]
  have qpos: "(0::rat) < of_int q" using q by simp
  have "x < pow2 (bitlen p) / pow2 (bitlen q - 1)"
    unfolding x using bp(2) bq(1) p
    by (intro frac_less) simp_all
  also have "\<dots> = pow2 (k + 1)"
    unfolding k_def pow2_diff [symmetric] by (simp add: algebra_simps)
  finally have hi: "x < pow2 (k + 1)" .
  have "pow2 (bitlen p - 1) / pow2 (bitlen q) < x"
    unfolding x using bp(1) bq(2) qpos
    by (intro frac_less2) simp_all
  moreover have "pow2 (bitlen p - 1) / pow2 (bitlen q) = pow2 (k - 1)"
    unfolding k_def pow2_diff [symmetric] by (simp add: algebra_simps)
  ultimately have lo: "pow2 (k - 1) < x" by simp
  have il: "ilog2 x = (if pow2 k \<le> x then k else k - 1)"
    by (simp add: ilog2_def pq k_def Let_def)
  show "pow2 (ilog2 x) \<le> x"
    using lo by (simp add: il less_imp_le)
  show "x < pow2 (ilog2 x + 1)"
    using hi by (simp add: il not_le)
qed

lemma ilog2_unique:
  assumes "pow2 n \<le> x" and "x < pow2 (n + 1)"
  shows "ilog2 x = n"
proof -
  have x: "0 < x"
    using assms(1) pow2_pos [of n] by linarith
  note b = ilog2_bounds [OF x]
  have "pow2 n < pow2 (ilog2 x + 1)"
    using assms(1) b(2) by linarith
  moreover have "pow2 (ilog2 x) < pow2 (n + 1)"
    using assms(2) b(1) by linarith
  ultimately show ?thesis
    by (simp add: pow2_less_iff)
qed

lemma ilog2_mono:
  assumes "0 < x" and "x \<le> y"
  shows "ilog2 x \<le> ilog2 y"
proof -
  have y: "0 < y" using assms by linarith
  have "pow2 (ilog2 x) < pow2 (ilog2 y + 1)"
    using ilog2_bounds(1) [OF assms(1)] ilog2_bounds(2) [OF y] assms(2) by linarith
  then show ?thesis
    by (simp add: pow2_less_iff)
qed

lemma round_half_even_error: "\<bar>of_int (round_half_even x) - x\<bar> \<le> 1 / 2"
proof -
  define r where "r = x - of_int \<lfloor>x\<rfloor>"
  have r: "0 \<le> r" "r < 1"
    unfolding r_def by linarith+
  have x: "x = of_int \<lfloor>x\<rfloor> + r"
    unfolding r_def by simp
  have "\<bar>of_int (if r < 1 / 2 then \<lfloor>x\<rfloor> else if 1 / 2 < r then \<lfloor>x\<rfloor> + 1
                      else if even \<lfloor>x\<rfloor> then \<lfloor>x\<rfloor> else \<lfloor>x\<rfloor> + 1)
          - (of_int \<lfloor>x\<rfloor> + r)\<bar> \<le> 1 / 2"
    using r by (auto simp: abs_if)
  then show ?thesis
    unfolding round_half_even_def Let_def r_def [symmetric] x [symmetric] .
qed

lemma round_half_even_of_int [simp]: "round_half_even (of_int k) = k"
  by (simp add: round_half_even_def)

lemma round_half_even_le:
  assumes "x \<le> of_int b"
  shows "round_half_even x \<le> b"
proof (cases "x = of_int b")
  case True
  then show ?thesis by simp
next
  case False
  then have "x < of_int b" using assms by simp
  then have "\<lfloor>x\<rfloor> < b" by (simp add: floor_less_iff)
  moreover have "round_half_even x \<le> \<lfloor>x\<rfloor> + 1"
    unfolding round_half_even_def Let_def by auto
  ultimately show ?thesis by linarith
qed

lemma round_half_even_ge:
  assumes "of_int a \<le> x"
  shows "a \<le> round_half_even x"
proof -
  have "a \<le> \<lfloor>x\<rfloor>" using assms by (simp add: le_floor_iff)
  then show ?thesis
    unfolding round_half_even_def Let_def by auto
qed


lemma fround_0 [simp]: "fround 0 = Finite 0"
  by (simp add: fround_def)

lemma fround_minus: "fround (- x) = js_neg (fround x)"
  by (cases "fround_pos x"; cases "fround_pos (- x)") (auto simp: fround_def)

lemma ulp_exponent_mono: "0 < x \<Longrightarrow> x \<le> y \<Longrightarrow> ulp_exponent x \<le> ulp_exponent y"
  using ilog2_mono [of x y] by (simp add: ulp_exponent_def)

lemma fround_pos_eq:
  assumes "0 < x"
  shows "fround x =
           (if pow2 1024 \<le> of_int (round_half_even (x / pow2 (ulp_exponent x))) * pow2 (ulp_exponent x)
            then PosInfinity
            else Finite (of_int (round_half_even (x / pow2 (ulp_exponent x))) * pow2 (ulp_exponent x)))"
  using assms by (simp add: fround_def fround_pos_def Let_def)

text \<open>A positive double is a whole multiple of its unit in the last place, below \<open>2^1024\<close>.\<close>

lemma is_double_posD:
  assumes "is_double x" and "0 < x"
  shows "x = of_int (round_half_even (x / pow2 (ulp_exponent x))) * pow2 (ulp_exponent x)"
    and "x < pow2 1024"
  using assms unfolding is_double_def fround_pos_eq [OF assms(2)]
  by (simp_all split: if_splits add: not_le)

lemma is_double_posI:
  assumes "0 < x" and "x / pow2 (ulp_exponent x) = of_int n" and "x < pow2 1024"
  shows "is_double x"
proof -
  have "of_int (round_half_even (x / pow2 (ulp_exponent x))) * pow2 (ulp_exponent x) = x"
    unfolding assms(2) round_half_even_of_int
    using assms(2) pow2_pos [of "ulp_exponent x"] by (simp add: field_simps)
  then show ?thesis
    unfolding is_double_def fround_pos_eq [OF assms(1)] using assms(3) by (simp add: not_le)
qed

lemma fround_is_double: "is_double x \<Longrightarrow> fround x = Finite x"
  by (simp add: is_double_def)

text \<open>Rounding does not cross a double: upper bound.\<close>

lemma fround_le_double:
  assumes x: "0 < x" and xb: "x \<le> b" and b: "is_double b"
  shows "\<exists>y. fround x = Finite y \<and> 0 \<le> y \<and> y \<le> b"
proof -
  define ex where "ex = ulp_exponent x"
  define eb where "eb = ulp_exponent b"
  define mb where "mb = round_half_even (b / pow2 eb)"
  define mx where "mx = round_half_even (x / pow2 ex)"
  have bpos: "0 < b" using x xb by linarith
  have bm: "b = of_int mb * pow2 eb" and blt: "b < pow2 1024"
    using is_double_posD [OF b bpos] unfolding mb_def eb_def by simp_all
  have e: "ex \<le> eb"
    unfolding ex_def eb_def by (rule ulp_exponent_mono [OF x xb])
  have "pow2 eb = pow2 (eb - ex) * pow2 ex"
    unfolding pow2_add [symmetric] by simp
  also have "pow2 (eb - ex) = of_int (2 ^ nat (eb - ex))"
    using e by (simp add: pow2_nat)
  finally have bB: "b = of_int (mb * 2 ^ nat (eb - ex)) * pow2 ex"
    unfolding bm by simp
  have "x / pow2 ex \<le> b / pow2 ex"
    using xb by (simp add: divide_right_mono less_imp_le)
  also have "b / pow2 ex = of_int (mb * 2 ^ nat (eb - ex))"
    using bB pow2_pos [of ex] by (simp add: field_simps)
  finally have "mx \<le> mb * 2 ^ nat (eb - ex)"
    unfolding mx_def by (rule round_half_even_le)
  then have "(of_int mx :: rat) \<le> of_int (mb * 2 ^ nat (eb - ex))"
    by (simp only: of_int_le_iff)
  then have yb: "of_int mx * pow2 ex \<le> b"
    unfolding bB [symmetric] using bB pow2_pos [of ex]
    by (metis less_imp_le mult_right_mono)
  have "(0::rat) \<le> x / pow2 ex"
    by (rule divide_nonneg_pos [OF less_imp_le [OF x] pow2_pos])
  then have "0 \<le> mx"
    unfolding mx_def using round_half_even_ge [of 0 "x / pow2 ex"] by simp
  then have y0: "(0::rat) \<le> of_int mx * pow2 ex"
    by (intro mult_nonneg_nonneg) (simp_all add: less_imp_le)
  have "\<not> pow2 1024 \<le> of_int mx * pow2 ex"
    using yb blt by linarith
  then have "fround x = Finite (of_int mx * pow2 ex)"
    unfolding fround_pos_eq [OF x] mx_def ex_def by simp
  with y0 yb show ?thesis by blast
qed


lemma ilog2_pow2 [simp]: "ilog2 (pow2 n) = n"
  by (rule ilog2_unique) (simp_all add: pow2_less_iff)

lemma pow2_neg53: "pow2 (- 53) = unit_roundoff"
  by (simp add: pow2_def unit_roundoff_def)

text \<open>
  Rounding a value of the normal range that does not exceed a double \<open>b\<close>: the result is
  finite, at most \<open>b\<close>, and within the relative error \<open>2^-53\<close>.
\<close>

lemma fround_near:
  assumes lo: "pow2 (- 1022) \<le> x" and xb: "x \<le> b" and b: "is_double b"
  shows "\<exists>y. fround x = Finite y \<and> x * (1 - unit_roundoff) \<le> y
             \<and> y \<le> x * (1 + unit_roundoff) \<and> y \<le> b"
proof -
  have x: "0 < x"
    using lo pow2_pos [of "- 1022"] by linarith
  define e where "e = ulp_exponent x"
  define m where "m = round_half_even (x / pow2 e)"
  obtain y where y: "fround x = Finite y" "y \<le> b"
    using fround_le_double [OF x xb b] by blast
  have ym: "y = of_int m * pow2 e"
    using y(1) unfolding fround_pos_eq [OF x] m_def e_def by (simp split: if_splits)
  have "ilog2 (pow2 (- 1022)) \<le> ilog2 x"
    by (rule ilog2_mono [OF pow2_pos lo])
  then have e52: "e = ilog2 x - 52"
    unfolding e_def ulp_exponent_def by simp
  have "\<bar>of_int m - x / pow2 e\<bar> \<le> 1 / 2"
    unfolding m_def by (rule round_half_even_error)
  then have "\<bar>of_int m - x / pow2 e\<bar> * pow2 e \<le> 1 / 2 * pow2 e"
    by (rule mult_right_mono) (simp add: less_imp_le)
  moreover have "\<bar>of_int m - x / pow2 e\<bar> * pow2 e = \<bar>y - x\<bar>"
  proof -
    have "y - x = (of_int m - x / pow2 e) * pow2 e"
      unfolding ym by (simp add: left_diff_distrib)
    then show ?thesis
      by (simp add: abs_mult abs_of_pos)
  qed
  moreover have "1 / 2 * pow2 e = pow2 (ilog2 x) * unit_roundoff"
  proof -
    have "pow2 e = pow2 (ilog2 x) * pow2 (- 52)"
      unfolding e52 using pow2_add [of "ilog2 x" "- 52"] by simp
    moreover have "pow2 (- 52) = 2 * unit_roundoff"
      by (simp add: pow2_def unit_roundoff_def)
    ultimately show ?thesis by simp
  qed
  moreover have "pow2 (ilog2 x) * unit_roundoff \<le> x * unit_roundoff"
    using ilog2_bounds(1) [OF x] by (simp add: unit_roundoff_def)
  ultimately have "\<bar>y - x\<bar> \<le> x * unit_roundoff"
    by linarith
  then have "x * (1 - unit_roundoff) \<le> y" and "y \<le> x * (1 + unit_roundoff)"
    by (simp_all add: algebra_simps abs_le_iff)
  with y show ?thesis by blast
qed

lemma unit_roundoff_bounds: "0 < unit_roundoff" "unit_roundoff < 1" "0 < 1 - unit_roundoff"
  by (simp_all add: unit_roundoff_def)

lemma near_refl: "near 0 x x"
  by (simp add: near_def)

lemma near_round:
  assumes "0 \<le> x" and "x * (1 - unit_roundoff) \<le> y" and "y \<le> x * (1 + unit_roundoff)"
  shows "near 1 x y"
proof -
  have "y * (1 - unit_roundoff) \<le> x * (1 + unit_roundoff) * (1 - unit_roundoff)"
    using assms(3) unit_roundoff_bounds(3) by (simp add: mult_right_mono less_imp_le)
  also have "\<dots> = x - x * unit_roundoff * unit_roundoff"
    by (simp add: algebra_simps)
  also have "\<dots> \<le> x"
    using assms(1) unit_roundoff_bounds(1) by (simp add: less_imp_le)
  finally show ?thesis
    using assms(2) by (simp add: near_def)
qed

lemma near_trans:
  assumes "near j x y" and "near k y z"
  shows "near (j + k) x z"
proof -
  have p: "0 \<le> (1 - unit_roundoff) ^ n" for n
    using unit_roundoff_bounds(3) by (simp add: less_imp_le)
  have "x * (1 - unit_roundoff) ^ (j + k) = x * (1 - unit_roundoff) ^ j * (1 - unit_roundoff) ^ k"
    by (simp add: power_add)
  also have "\<dots> \<le> y * (1 - unit_roundoff) ^ k"
    using assms(1) p [of k] by (simp add: near_def mult_right_mono)
  also have "\<dots> \<le> z"
    using assms(2) by (simp add: near_def)
  finally have 1: "x * (1 - unit_roundoff) ^ (j + k) \<le> z" .
  have "z * (1 - unit_roundoff) ^ (j + k) = z * (1 - unit_roundoff) ^ k * (1 - unit_roundoff) ^ j"
    by (simp add: power_add)
  also have "\<dots> \<le> y * (1 - unit_roundoff) ^ j"
    using assms(2) p [of j] by (simp add: near_def mult_right_mono)
  also have "\<dots> \<le> x"
    using assms(1) by (simp add: near_def)
  finally have 2: "z * (1 - unit_roundoff) ^ (j + k) \<le> x" .
  from 1 2 show ?thesis by (simp add: near_def)
qed

lemma near_scale:
  assumes "near k x y" and "0 \<le> c"
  shows "near k (x * c) (y * c)" and "near k (x / c) (y / c)"
proof -
  have "x * (1 - unit_roundoff) ^ k * c \<le> y * c" "y * (1 - unit_roundoff) ^ k * c \<le> x * c"
    using assms by (simp_all add: near_def mult_right_mono)
  then show "near k (x * c) (y * c)"
    by (simp add: near_def mult.assoc mult.left_commute mult.commute)
  have "x * (1 - unit_roundoff) ^ k / c \<le> y / c" "y * (1 - unit_roundoff) ^ k / c \<le> x / c"
    using assms by (simp_all add: near_def divide_right_mono)
  then show "near k (x / c) (y / c)"
    by (simp add: near_def)
qed

lemma near_inverse:
  assumes "near k x y" and "0 < x" and "0 < y" and "0 \<le> c"
  shows "near k (c / x) (c / y)"
proof -
  have "c * (y * (1 - unit_roundoff) ^ k) \<le> c * x" "c * (x * (1 - unit_roundoff) ^ k) \<le> c * y"
    using assms by (simp_all add: near_def mult_left_mono)
  then have "c / x * (1 - unit_roundoff) ^ k \<le> c / y" "c / y * (1 - unit_roundoff) ^ k \<le> c / x"
    using assms(2,3) by (simp_all add: field_simps)
  then show ?thesis by (simp add: near_def)
qed

lemma near_error:
  assumes "near k x y" and "0 \<le> x" and "k \<le> 3"
  shows "\<bar>y - x\<bar> \<le> x / 2 ^ 51"
proof -
  have p: "0 < (1 - unit_roundoff) ^ k"
    using unit_roundoff_bounds(3) by simp
  have "(1 - unit_roundoff) ^ 3 \<le> (1 - unit_roundoff) ^ k"
    using assms(3) unit_roundoff_bounds by (intro power_decreasing) simp_all
  moreover have "1 - 1 / 2 ^ 51 \<le> (1 - unit_roundoff) ^ 3"
    by (simp add: unit_roundoff_def power3_eq_cube)
  ultimately have c: "1 - 1 / 2 ^ 51 \<le> (1 - unit_roundoff) ^ k"
    by linarith
  have "x * (1 - 1 / 2 ^ 51) \<le> x * (1 - unit_roundoff) ^ k"
    using c assms(2) by (rule mult_left_mono)
  then have lo: "x - x / 2 ^ 51 \<le> y"
    using assms(1) by (simp add: near_def algebra_simps)
  have y0: "0 \<le> y"
    using assms(1,2) p unfolding near_def
    by (meson less_imp_le mult_nonneg_nonneg order_trans)
  have "1 \<le> (1 + 1 / 2 ^ 51) * (1 - unit_roundoff) ^ 3"
    by (simp add: unit_roundoff_def power3_eq_cube)
  also have "\<dots> \<le> (1 + 1 / 2 ^ 51) * (1 - unit_roundoff) ^ k"
    using \<open>(1 - unit_roundoff) ^ 3 \<le> (1 - unit_roundoff) ^ k\<close> by (intro mult_left_mono) simp_all
  finally have "y * 1 \<le> y * ((1 + 1 / 2 ^ 51) * (1 - unit_roundoff) ^ k)"
    using y0 by (rule mult_left_mono)
  also have "\<dots> = (1 + 1 / 2 ^ 51) * (y * (1 - unit_roundoff) ^ k)"
    by simp
  also have "\<dots> \<le> (1 + 1 / 2 ^ 51) * x"
    using assms(1) by (intro mult_left_mono) (simp_all add: near_def)
  finally have hi: "y \<le> x + x / 2 ^ 51"
    by (simp add: algebra_simps)
  from lo hi have "y - x \<le> x / 2 ^ 51" and "- (y - x) \<le> x / 2 ^ 51"
    by linarith+
  then show ?thesis
    by (rule abs_leI)
qed

lemma fround_nonneg:
  assumes "0 \<le> x"
  shows "fround x = PosInfinity \<or> (\<exists>y. fround x = Finite y \<and> 0 \<le> y)"
proof (cases "x = 0")
  case True
  then show ?thesis by simp
next
  case False
  then have x: "0 < x" using assms by simp
  have "(0::rat) \<le> x / pow2 (ulp_exponent x)"
    by (rule divide_nonneg_pos [OF assms pow2_pos])
  then have "0 \<le> round_half_even (x / pow2 (ulp_exponent x))"
    using round_half_even_ge [of 0 "x / pow2 (ulp_exponent x)"] by simp
  then have "(0::rat) \<le> of_int (round_half_even (x / pow2 (ulp_exponent x))) * pow2 (ulp_exponent x)"
    by (intro mult_nonneg_nonneg) (simp_all add: less_imp_le)
  then show ?thesis
    unfolding fround_pos_eq [OF x] by simp
qed

lemma fround_nonpos:
  assumes "x \<le> 0"
  shows "fround x = NegInfinity \<or> (\<exists>y. fround x = Finite y \<and> y \<le> 0)"
proof -
  have "fround x = js_neg (fround (- x))"
    using fround_minus [of "- x"] by simp
  moreover have "fround (- x) = PosInfinity \<or> (\<exists>y. fround (- x) = Finite y \<and> 0 \<le> y)"
    using assms by (intro fround_nonneg) simp
  ultimately show ?thesis by auto
qed

text \<open>The whole numbers below \<open>2^53\<close> are doubles.\<close>

lemma is_double_of_nat:
  assumes "n < 2 ^ 53"
  shows "is_double (of_nat n)"
proof (cases "n = 0")
  case True
  then show ?thesis by (simp add: is_double_def)
next
  case False
  define x :: rat where "x = of_nat n"
  have x1: "1 \<le> x" using False by (simp add: x_def)
  then have x: "0 < x" by simp
  have "x < of_nat (2 ^ 53)"
    unfolding x_def using assms by (simp only: of_nat_less_iff)
  then have x53: "x < pow2 53"
    by (simp add: pow2_def)
  have "pow2 (ilog2 x) < pow2 53"
    using ilog2_bounds(1) [OF x] x53 by linarith
  then have "ilog2 x < 53"
    by (simp add: pow2_less_iff)
  then have e: "ulp_exponent x \<le> 0"
    by (simp add: ulp_exponent_def)
  have "x / pow2 (ulp_exponent x) = x * pow2 (- ulp_exponent x)"
    using pow2_add [of "ulp_exponent x" "- ulp_exponent x"] by (simp add: field_simps pow2_def)
  also have "\<dots> = of_int (int n * 2 ^ nat (- ulp_exponent x))"
    using e by (simp add: pow2_nat x_def)
  finally have "x / pow2 (ulp_exponent x) = of_int (int n * 2 ^ nat (- ulp_exponent x))" .
  moreover have "x < pow2 1024"
    using x53 pow2_strict_mono [of 53 1024] by simp
  ultimately show ?thesis
    unfolding x_def [symmetric] using x by (intro is_double_posI)
qed

lemma fround_of_nat: "n < 2 ^ 53 \<Longrightarrow> fround (of_nat n) = Finite (of_nat n)"
  using is_double_of_nat [of n] by (simp add: is_double_def)

subsection \<open>Operations on positive values\<close>

text \<open>
  A quotient or product of the normal range that does not exceed a double \<open>c\<close> is finite,
  positive, at most \<open>c\<close>, and one rounding away from the exact value.
\<close>

lemma fround_near_pos:
  assumes "pow2 (- 1022) \<le> x" and "x \<le> c" and "is_double c"
  shows "\<exists>y. fround x = Finite y \<and> near 1 x y \<and> 0 < y \<and> y \<le> c"
proof -
  have x: "0 < x"
    using assms(1) pow2_pos [of "- 1022"] by linarith
  obtain y where y: "fround x = Finite y" "x * (1 - unit_roundoff) \<le> y"
    "y \<le> x * (1 + unit_roundoff)" "y \<le> c"
    using fround_near [OF assms] by blast
  have "0 < x * (1 - unit_roundoff)"
    using x unit_roundoff_bounds(3) by simp
  then have "0 < y" using y(2) by linarith
  moreover have "near 1 x y"
    using x y(2,3) by (intro near_round) simp_all
  ultimately show ?thesis using y(1,4) by blast
qed

lemma js_div_near:
  assumes "b \<noteq> 0" and "pow2 (- 1022) \<le> a / b" and "a / b \<le> c" and "is_double c"
  shows "\<exists>y. js_div (Finite a) (Finite b) = Finite y \<and> near 1 (a / b) y \<and> 0 < y \<and> y \<le> c"
  using fround_near_pos [OF assms(2,3,4)] assms(1) by simp

lemma js_mul_near:
  assumes "pow2 (- 1022) \<le> a * b" and "a * b \<le> c" and "is_double c"
  shows "\<exists>y. js_mul (Finite a) (Finite b) = Finite y \<and> near 1 (a * b) y \<and> 0 < y \<and> y \<le> c"
  using fround_near_pos [OF assms] by simp

lemma near_lower_half:
  assumes "near 1 x y" and "0 \<le> x"
  shows "x / 2 \<le> y"
proof -
  have "(1::rat) / 2 \<le> 1 - unit_roundoff"
    by (simp add: unit_roundoff_def)
  then have "x * (1 / 2) \<le> x * (1 - unit_roundoff)"
    using assms(2) by (rule mult_left_mono)
  then show ?thesis
    using assms(1) by (simp add: near_def)
qed

subsection \<open>Sums that do not round\<close>




lemma is_double_100: "is_double 100"
  unfolding is_double_def by code_simp

lemma is_double_1: "is_double 1"
  unfolding is_double_def by code_simp

subsection \<open>Variance\<close>

text \<open>
  C10: \<open>calculateVariance\<close> returns 0 for the empty list without reaching either of its
  divisions (the value is the finite number 0, where a division by the length 0 would have
  given NaN), and the consistency score of an empty history is 100.
\<close>

theorem calculateVariance_empty:
  "calculateVariance [] = Finite 0 \<and> consistencyScore [] = Finite 100"
  using is_double_100
  by (simp add: calculateVariance_def consistencyScore_def Math_max_def js_sub_def is_double_def)




subsection \<open>Change percentage\<close>


lemma calculateChange_None: "calculateChange None metric = Finite 0"
  by (simp add: calculateChange_def)






subsection \<open>Difficulty breakdown\<close>

lemma push_session_three:
  assumes "difficulty_or_medium s \<notin> set Object_prototype_keys"
  shows "push_session [(''easy'', a), (''medium'', b), (''hard'', c)] s =
           Inr [(''easy'', a @ filter (\<lambda>s. difficulty_or_medium s = ''easy'') [s]),
                (''medium'', b @ filter (\<lambda>s. difficulty_or_medium s = ''medium'') [s]),
                (''hard'', c @ filter (\<lambda>s. difficulty_or_medium s = ''hard'') [s])]"
  using assms by (simp add: push_session_def Let_def)

lemma forEach_session_three:
  assumes "\<forall>s\<in>set sessions. difficulty_or_medium s \<notin> set Object_prototype_keys"
  shows "forEach_session [(''easy'', a), (''medium'', b), (''hard'', c)] sessions =
           Inr [(''easy'', a @ filter (\<lambda>s. difficulty_or_medium s = ''easy'') sessions),
                (''medium'', b @ filter (\<lambda>s. difficulty_or_medium s = ''medium'') sessions),
                (''hard'', c @ filter (\<lambda>s. difficulty_or_medium s = ''hard'') sessions)]"
  using assms
proof (induction sessions arbitrary: a b c)
  case Nil
  then show ?case by simp
next
  case (Cons s ss)
  then have s: "difficulty_or_medium s \<notin> set Object_prototype_keys"
    and ss: "\<forall>s\<in>set ss. difficulty_or_medium s \<notin> set Object_prototype_keys"
    by simp_all
  show ?case
    by (simp only: forEach_session.simps push_session_three [OF s] sum.case Cons.IH [OF ss])
       simp
qed

lemma length_filter_three:
  assumes "a \<noteq> b" "a \<noteq> c" "b \<noteq> c"
  shows "length (filter (\<lambda>s. f s = (a::string)) xs) + length (filter (\<lambda>s. f s = b) xs)
           + length (filter (\<lambda>s. f s = c) xs)
         = length (filter (\<lambda>s. f s \<in> {a, b, c}) xs)"
  using assms by (induction xs) auto

lemma group_stat_explicit:
  "group_stat (d, g) =
     \<lparr> stat_difficulty = d,
       count = length g,
       avgWpm = (if g = [] then Finite 0 else js_div (js_sum (map wpm g)) (js_length g)),
       avgAccuracy = (if g = [] then Finite 0 else js_div (js_sum (map accuracy g)) (js_length g)) \<rparr>"
  by (simp add: group_stat_def js_sum_def foldl_map)

lemma calculateDifficultyStats_TypeError:
  "calculateDifficultyStats [\<lparr> wpm = Finite 50, accuracy = Finite 90, difficulty = Some ''toString'' \<rparr>]
     = Inl TypeError"
  by code_simp

text \<open>
  C6, as the claim states it, fails: a session whose difficulty is none of \<open>easy\<close>,
  \<open>medium\<close>, \<open>hard\<close> is not counted as \<open>medium\<close>; the guard \<open>if (stats[difficulty])\<close>
  leaves it out of every group, and the three counts add up to 0 for one session.
\<close>

theorem calculateDifficultyStats_unknown_counterexample:
  "calculateDifficultyStats [\<lparr> wpm = Finite 50, accuracy = Finite 90, difficulty = Some ''expert'' \<rparr>]
     = Inr [\<lparr> stat_difficulty = ''easy'', count = 0, avgWpm = Finite 0, avgAccuracy = Finite 0 \<rparr>,
            \<lparr> stat_difficulty = ''medium'', count = 0, avgWpm = Finite 0, avgAccuracy = Finite 0 \<rparr>,
            \<lparr> stat_difficulty = ''hard'', count = 0, avgWpm = Finite 0, avgAccuracy = Finite 0 \<rparr>]"
  by code_simp

text \<open>
  C6, amended: for sessions whose difficulty is not the name of a property inherited from
  \<open>Object.prototype\<close>, \<open>calculateDifficultyStats\<close> returns the groups \<open>easy\<close>,
  \<open>medium\<close>, \<open>hard\<close> in this order; a missing or empty difficulty counts as \<open>medium\<close>,
  a session of any other difficulty is in no group; each group reports its count, and the
  averages of WPM and accuracy over its sessions (0 for an empty group); the three counts
  add up to the number of sessions whose difficulty is missing, empty or one of the three.
\<close>

theorem calculateDifficultyStats_groups:
  assumes "\<forall>s\<in>set sessions. difficulty_or_medium s \<notin> set Object_prototype_keys"
  shows "calculateDifficultyStats sessions =
           Inr (map (\<lambda>d. let g = filter (\<lambda>s. difficulty_or_medium s = d) sessions
                         in \<lparr> stat_difficulty = d,
                              count = length g,
                              avgWpm = (if g = [] then Finite 0
                                        else js_div (js_sum (map wpm g)) (js_length g)),
                              avgAccuracy = (if g = [] then Finite 0
                                        else js_div (js_sum (map accuracy g)) (js_length g)) \<rparr>)
                  [''easy'', ''medium'', ''hard''])
         \<and> (case calculateDifficultyStats sessions of
               Inl e \<Rightarrow> False
             | Inr stats \<Rightarrow>
                 sum_list (map count stats) =
                   length (filter (\<lambda>s. difficulty_or_medium s \<in> {''easy'', ''medium'', ''hard''})
                             sessions))"
proof -
  have eq: "calculateDifficultyStats sessions =
          Inr (map (\<lambda>d. group_stat (d, filter (\<lambda>s. difficulty_or_medium s = d) sessions))
                 [''easy'', ''medium'', ''hard''])"
    by (simp add: calculateDifficultyStats_def forEach_session_three [OF assms])
  have total: "sum_list (map count
                 (map (\<lambda>d. group_stat (d, filter (\<lambda>s. difficulty_or_medium s = d) sessions))
                    [''easy'', ''medium'', ''hard''])) =
             length (filter (\<lambda>s. difficulty_or_medium s \<in> {''easy'', ''medium'', ''hard''}) sessions)"
    using length_filter_three [of "''easy''" "''medium''" "''hard''" difficulty_or_medium sessions]
    by (simp add: group_stat_explicit)
  have groups: "calculateDifficultyStats sessions =
           Inr (map (\<lambda>d. let g = filter (\<lambda>s. difficulty_or_medium s = d) sessions
                         in \<lparr> stat_difficulty = d,
                              count = length g,
                              avgWpm = (if g = [] then Finite 0
                                        else js_div (js_sum (map wpm g)) (js_length g)),
                              avgAccuracy = (if g = [] then Finite 0
                                        else js_div (js_sum (map accuracy g)) (js_length g)) \<rparr>)
                  [''easy'', ''medium'', ''hard''])"
    unfolding eq by (simp add: group_stat_explicit Let_def)
  have "case calculateDifficultyStats sessions of
               Inl e \<Rightarrow> False
             | Inr stats \<Rightarrow>
                 sum_list (map count stats) =
                   length (filter (\<lambda>s. difficulty_or_medium s \<in> {''easy'', ''medium'', ''hard''})
                             sessions)"
    unfolding eq using total by simp
  with groups show ?thesis by (rule conjI)
qed

theorem calculateDifficultyStats_groups_witness:
  "calculateDifficultyStats
     [\<lparr> wpm = Finite 40, accuracy = Finite 90, difficulty = None \<rparr>,
      \<lparr> wpm = Finite 60, accuracy = Finite 80, difficulty = Some ''hard'' \<rparr>,
      \<lparr> wpm = Finite 70, accuracy = Finite 99, difficulty = Some ''expert'' \<rparr>]
   = Inr [\<lparr> stat_difficulty = ''easy'', count = 0, avgWpm = Finite 0, avgAccuracy = Finite 0 \<rparr>,
          \<lparr> stat_difficulty = ''medium'', count = 1, avgWpm = Finite 40, avgAccuracy = Finite 90 \<rparr>,
          \<lparr> stat_difficulty = ''hard'', count = 1, avgWpm = Finite 60, avgAccuracy = Finite 80 \<rparr>]"
proof -
  have f: "fround 40 = Finite 40" "fround 60 = Finite 60" "fround 80 = Finite 80"
    "fround 90 = Finite 90"
    by code_simp+
  show ?thesis
    using calculateDifficultyStats_groups
          [of "[\<lparr> wpm = Finite 40, accuracy = Finite 90, difficulty = None \<rparr>,
                \<lparr> wpm = Finite 60, accuracy = Finite 80, difficulty = Some ''hard'' \<rparr>,
                \<lparr> wpm = Finite 70, accuracy = Finite 99, difficulty = Some ''expert'' \<rparr>]"]
    by (simp add: difficulty_or_medium_def Object_prototype_keys_def js_sum_def js_length_def f)
qed

subsection \<open>Linear regression\<close>

lemma regression_denominator_empty: "regression_denominator [] = Finite 0"
  by (simp add: regression_denominator_def regression_x_def sumX_def sumXX_def js_sum_def
      js_length_def js_sub_def)

lemma calculateLinearRegression_empty: "calculateLinearRegression [] = []"
  by (simp add: calculateLinearRegression_def regression_x_def)

lemma regression_denominator_single: "regression_denominator [v] = Finite 0"
  by (simp add: regression_denominator_def regression_x_def sumX_def sumXX_def js_sum_def
      js_length_def js_sub_def)

lemma calculateLinearRegression_single: "calculateLinearRegression [v] = [NaN]"
proof (cases v)
  case (Finite q)
  then show ?thesis
    by (cases "fround q")
       (simp_all add: calculateLinearRegression_def regression_x_def slope_def intercept_def
          regression_denominator_def sumX_def sumY_def sumXY_def sumXX_def js_sum_def
          js_length_def js_sub_def js_signed_inf_def)
qed (simp_all add: calculateLinearRegression_def regression_x_def slope_def intercept_def
       regression_denominator_def sumX_def sumY_def sumXY_def sumXX_def js_sum_def
       js_length_def js_sub_def js_signed_inf_def)

text \<open>
  C4, as the claim states it, fails: on a series of one value the denominator is 0, the
  division \<open>0 / 0\<close> is performed, and the result is one NaN: neither the flat line at the
  mean (the value itself) nor the empty list.
\<close>

theorem calculateLinearRegression_single_counterexample:
  "regression_denominator [Finite 42] = Finite 0
   \<and> slope [Finite 42] = NaN
   \<and> calculateLinearRegression [Finite 42] = [NaN]
   \<and> calculateLinearRegression [Finite 42] \<noteq> [Finite 42]
   \<and> calculateLinearRegression [Finite 42] \<noteq> []"
  by code_simp

text \<open>
  C4, amended: \<open>calculateLinearRegression\<close> has no guard for the degenerate cases. For the
  empty series and for a series of one value the denominator \<open>n * sumXX - sumX * sumX\<close> is
  zero; the empty series gives the empty list, and a series of one value, of any kind,
  goes through the division \<open>0 / 0\<close> and gives one NaN.
\<close>

theorem calculateLinearRegression_degenerate:
  "regression_denominator [] = Finite 0
   \<and> calculateLinearRegression [] = []
   \<and> regression_denominator [v] = Finite 0
   \<and> calculateLinearRegression [v] = [NaN]"
  using regression_denominator_empty calculateLinearRegression_empty
    regression_denominator_single [of v] calculateLinearRegression_single [of v]
  by simp

text \<open>
  C7: on the series 10, 20, 30, 40, 50 the slope is 10, the intercept is 10, and the fitted
  values are the input values.
\<close>

theorem calculateLinearRegression_linear_series:
  "slope (map Finite [10, 20, 30, 40, 50]) = Finite 10
   \<and> intercept (map Finite [10, 20, 30, 40, 50]) = Finite 10
   \<and> calculateLinearRegression (map Finite [10, 20, 30, 40, 50])
       = map Finite [10, 20, 30, 40, 50]"
  by code_simp

subsection \<open>Histogram\<close>

text \<open>
  C3: the counts of the bins do not add up to the number of values. For the values 40, 50,
  60 and ten bins, the bins are \<open>[40, 42)\<close>, \<open>[42, 44)\<close>, up to \<open>[58, 60)\<close>: 40 is
  in the first, 50 in the sixth, and the maximum 60 fails \<open>v < binMax\<close> in the last bin
  and is counted nowhere.
\<close>

theorem createHistogramBins_drops_maximum:
  "map bin_count (createHistogramBins [Finite 40, Finite 50, Finite 60] 10)
     = [1, 0, 0, 0, 0, 1, 0, 0, 0, 0]
   \<and> last (createHistogramBins [Finite 40, Finite 50, Finite 60] 10)
       = \<lparr> bin_min = Finite 58, bin_max = Finite 60, bin_count = 0 \<rparr>
   \<and> sum_list (map bin_count (createHistogramBins [Finite 40, Finite 50, Finite 60] 10)) = 2
   \<and> length [Finite 40, Finite 50, Finite 60] = 3"
  by code_simp

subsection \<open>Word count\<close>

lemma count_tokens_dropWhile:
  "count_tokens False (dropWhile is_whitespace s) = count_tokens False s"
  by (induction s) simp_all

lemma count_tokens_start:
  "s \<noteq> [] \<Longrightarrow> \<not> is_whitespace (hd s) \<Longrightarrow> count_tokens False s = 1 + count_tokens True s"
  by (cases s) simp_all

lemma count_tokens_trailing:
  "\<forall>c\<in>set w. is_whitespace c \<Longrightarrow> count_tokens inside (v @ w) = count_tokens inside v"
proof (induction v arbitrary: inside)
  case Nil
  then show ?case by (induction w arbitrary: inside) simp_all
next
  case (Cons c v)
  then show ?case by simp
qed

text \<open>The non-empty pieces of a split are the tokens of the string.\<close>

lemma nonempty_pieces:
  "length (filter (\<lambda>token. token \<noteq> []) (split_whitespace_from piece s))
     = (if piece = [] then count_tokens False s else 1 + count_tokens True s)"
proof (induction piece s rule: split_whitespace_from.induct)
  case (1 piece)
  then show ?case by simp
next
  case (2 piece c cs)
  then show ?case
    by (cases "is_whitespace c"; cases "piece = []") (simp_all add: count_tokens_dropWhile)
qed

lemma wordCount_tokens: "wordCount s = count_tokens False s"
  by (simp add: wordCount_def split_whitespace_def nonempty_pieces)

text \<open>
  All the pieces of a split, for a string that does not end in whitespace: one more than
  the tokens that start after the first code unit of a token.
\<close>

lemma all_pieces:
  "s = [] \<or> \<not> is_whitespace (last s) \<Longrightarrow>
     length (split_whitespace_from piece s) = 1 + count_tokens True s"
proof (induction piece s rule: split_whitespace_from.induct)
  case (1 piece)
  then show ?case by simp
next
  case (2 piece c cs)
  show ?case
  proof (cases "is_whitespace c")
    case True
    with "2.prems" have cs: "cs \<noteq> []" "\<not> is_whitespace (last cs)"
      by (auto split: if_splits)
    define t where "t = dropWhile is_whitespace cs"
    have "last cs \<in> set t"
      unfolding t_def using cs
      by (metis append_Nil2 last_appendR last_in_set set_takeWhileD takeWhile_dropWhile_id)
    then have t: "t \<noteq> []" by auto
    then have hd: "\<not> is_whitespace (hd t)"
      unfolding t_def by (metis hd_dropWhile)
    have "last t = last cs"
      using t unfolding t_def by (metis last_appendR takeWhile_dropWhile_id)
    then have "length (split_whitespace_from [] t) = 1 + count_tokens True t"
      using "2.IH"(1) [OF True] cs t unfolding t_def by simp
    moreover have "count_tokens False cs = 1 + count_tokens True t"
      using count_tokens_start [OF t hd] count_tokens_dropWhile [of cs] unfolding t_def by simp
    ultimately show ?thesis
      using True unfolding t_def by simp
  next
    case False
    with "2.prems" have "cs = [] \<or> \<not> is_whitespace (last cs)"
      by (auto split: if_splits)
    then show ?thesis
      using "2.IH"(2) [OF False] False by simp
  qed
qed

lemma trim_decompose:
  "\<exists>w. dropWhile is_whitespace s = trim s @ w \<and> (\<forall>c\<in>set w. is_whitespace c)"
proof -
  define u where "u = dropWhile is_whitespace s"
  have "u = rev (dropWhile is_whitespace (rev u)) @ rev (takeWhile is_whitespace (rev u))"
    by (metis rev_append rev_rev_ident takeWhile_dropWhile_id)
  moreover have "\<forall>c\<in>set (rev (takeWhile is_whitespace (rev u))). is_whitespace c"
    by (auto dest: set_takeWhileD)
  ultimately show ?thesis
    unfolding trim_def u_def by blast
qed

lemma trim_nonempty:
  assumes "\<exists>c\<in>set s. \<not> is_whitespace c"
  shows "trim s \<noteq> []" and "\<not> is_whitespace (hd (trim s))" and "\<not> is_whitespace (last (trim s))"
proof -
  define u where "u = dropWhile is_whitespace s"
  have u: "u \<noteq> []"
    unfolding u_def using assms by (simp add: dropWhile_eq_Nil_conv)
  then have hdu: "\<not> is_whitespace (hd u)"
    unfolding u_def by (metis hd_dropWhile)
  then have "\<exists>c\<in>set (rev u). \<not> is_whitespace c"
    using u by (metis hd_in_set set_rev)
  then have r: "dropWhile is_whitespace (rev u) \<noteq> []"
    by (simp add: dropWhile_eq_Nil_conv)
  then show ne: "trim s \<noteq> []"
    unfolding trim_def u_def by simp
  have "\<not> is_whitespace (hd (dropWhile is_whitespace (rev u)))"
    using r by (metis hd_dropWhile)
  then show "\<not> is_whitespace (last (trim s))"
    using r unfolding trim_def u_def by (simp add: last_rev)
  obtain w where w: "u = trim s @ w"
    using trim_decompose [of s] unfolding u_def by blast
  then have "hd u = hd (trim s)"
    using ne by simp
  then show "\<not> is_whitespace (hd (trim s))"
    using hdu by simp
qed

text \<open>
  For a string with a code unit that is not whitespace, \<open>input.trim().split(/\s+/).length\<close>
  is the number of its non-empty whitespace-separated tokens.
\<close>

lemma words_eq_wordCount:
  assumes "\<exists>c\<in>set s. \<not> is_whitespace c"
  shows "words s = wordCount s"
proof -
  note t = trim_nonempty [OF assms]
  obtain w where w: "dropWhile is_whitespace s = trim s @ w" "\<forall>c\<in>set w. is_whitespace c"
    using trim_decompose [of s] by blast
  have "words s = 1 + count_tokens True (trim s)"
    unfolding words_def split_whitespace_def using all_pieces t(3) by blast
  also have "\<dots> = count_tokens False (trim s)"
    using count_tokens_start [OF t(1) t(2)] by simp
  also have "\<dots> = count_tokens False (dropWhile is_whitespace s)"
    unfolding w(1) using count_tokens_trailing [OF w(2)] by simp
  also have "\<dots> = count_tokens False s"
    by (rule count_tokens_dropWhile)
  also have "\<dots> = wordCount s"
    by (simp add: wordCount_tokens)
  finally show ?thesis .
qed

text \<open>
  For the empty string and for a string of whitespace only, the split of the trimmed string
  is the one empty piece, which \<open>length\<close> counts: \<open>words\<close> is 1 where there is no token.
\<close>

lemma words_blank:
  assumes "\<forall>c\<in>set s. is_whitespace c"
  shows "words s = 1" and "wordCount s = 0"
proof -
  have d: "dropWhile is_whitespace s = []" using assms by simp
  show "words s = 1"
    unfolding words_def trim_def split_whitespace_def d by simp
  have "count_tokens False s = 0"
    using count_tokens_trailing [OF assms, of False "[]"] by simp
  then show "wordCount s = 0"
    by (simp add: wordCount_tokens)
qed

lemma split_whitespace_from_length:
  "1 \<le> length (split_whitespace_from piece s)"
  "length (split_whitespace_from piece s) \<le> length s + 1"
proof -
  show "1 \<le> length (split_whitespace_from piece s)"
    by (induction piece s rule: split_whitespace_from.induct) simp_all
  show "length (split_whitespace_from piece s) \<le> length s + 1"
  proof (induction piece s rule: split_whitespace_from.induct)
    case (1 piece)
    then show ?case by simp
  next
    case (2 piece c cs)
    have "length (dropWhile is_whitespace cs) \<le> length cs"
      by (rule length_dropWhile_le)
    with 2 show ?case by (cases "is_whitespace c") simp_all
  qed
qed

lemma words_bounds: "1 \<le> words input" "words input \<le> length input + 1"
proof -
  show "1 \<le> words input"
    unfolding words_def split_whitespace_def by (rule split_whitespace_from_length(1))
  have "length (trim input) \<le> length input"
    unfolding trim_def
    by (metis length_dropWhile_le length_rev order_trans)
  moreover have "words input \<le> length (trim input) + 1"
    unfolding words_def split_whitespace_def by (rule split_whitespace_from_length(2))
  ultimately show "words input \<le> length input + 1"
    by linarith
qed

subsection \<open>Words per minute\<close>

lemma tiny: "pow2 (- 1022) \<le> 1 / 2 ^ 100"
proof -
  have "pow2 (- 1022) \<le> pow2 (- 100)"
    by (rule pow2_mono) simp
  then show ?thesis by (simp add: pow2_def)
qed

lemma is_double_of_int:
  assumes "0 \<le> k" and "k < 2 ^ 53"
  shows "is_double (of_int k)"
proof -
  have "nat k < 2 ^ 53"
    using assms by (simp add: nat_less_iff)
  then have "is_double (of_nat (nat k))"
    by (rule is_double_of_nat)
  then show ?thesis
    using assms(1) by simp
qed

lemma is_double_2_71: "is_double 2361183241434822606848"
  unfolding is_double_def by code_simp

text \<open>
  The final computation: three roundings away from the exact words per minute.
\<close>

lemma submit_wpm_near:
  assumes e: "0 < elapsed" "elapsed < 2 ^ 53" and w: "words input \<le> 2 ^ 53"
  shows "\<exists>y. submit_wpm input elapsed = Finite y
             \<and> near 3 (of_nat (words input) / (of_int elapsed / 60000)) y"
proof -
  define E :: rat where "E = of_int elapsed"
  define W :: rat where "W = of_nat (words input)"
  have E1: "1 \<le> E"
    unfolding E_def using e(1) by (metis int_one_le_iff_zero_less of_int_1 of_int_le_iff)
  have dE: "is_double E"
    unfolding E_def using e by (intro is_double_of_int) simp_all
  have fE: "fround (of_int elapsed) = Finite E"
    using dE by (simp add: is_double_def E_def)
  have W1: "1 \<le> W"
    unfolding W_def using words_bounds(1) [of input] by (metis of_nat_1 of_nat_le_iff)
  have "W \<le> of_nat (2 ^ 53)"
    unfolding W_def using w by (simp only: of_nat_le_iff)
  then have W53: "W \<le> 2 ^ 53" by simp
  have "E \<le> of_int (2 ^ 53)"
    unfolding E_def using e(2) by (simp only: of_int_le_iff less_imp_le)
  then have E53: "E \<le> 2 ^ 53" by simp
  \<comment> \<open>\<open>elapsedSeconds = (endTime - startTime) / 1000\<close>\<close>
  have "pow2 (- 1022) \<le> E / 1000"
    using tiny E1 by (simp add: field_simps)
  moreover have "E / 1000 \<le> E"
    using E1 by simp
  ultimately obtain es where es: "js_div (Finite E) (Finite 1000) = Finite es"
    "near 1 (E / 1000) es" "0 < es" "es \<le> E"
    using js_div_near [of 1000 E E] dE by auto
  have es_lo: "1 / 2000 \<le> es"
    using near_lower_half [OF es(2)] E1 by simp
  \<comment> \<open>\<open>elapsedSeconds / 60\<close>\<close>
  have "pow2 (- 1022) \<le> es / 60"
    using tiny es_lo by (simp add: field_simps)
  moreover have "es / 60 \<le> E"
    using es(3,4) by simp
  ultimately obtain em where em: "js_div (Finite es) (Finite 60) = Finite em"
    "near 1 (es / 60) em" "0 < em" "em \<le> E"
    using js_div_near [of 60 es E] dE by auto
  have em_lo: "1 / 240000 \<le> em"
    using near_lower_half [OF em(2)] es_lo es(3) by simp
  have "near 1 (E / 1000 / 60) (es / 60)"
    using es(2) by (intro near_scale(2)) simp_all
  then have "near (1 + 1) (E / 1000 / 60) em"
    using em(2) by (rule near_trans)
  moreover have "E / 1000 / 60 = E / 60000"
    by simp
  ultimately have n2: "near 2 (E / 60000) em"
    by (simp only: one_add_one)
  \<comment> \<open>\<open>words / (elapsedSeconds / 60)\<close>\<close>
  have "1 / 2 ^ 53 \<le> 1 / em"
    using em(3,4) E53 by (intro divide_left_mono) simp_all
  also have "1 / em \<le> W / em"
    using W1 em(3) by (simp add: divide_right_mono)
  finally have "pow2 (- 1022) \<le> W / em"
    using tiny by simp
  moreover have "W / em \<le> 2361183241434822606848"
  proof -
    have "W / em \<le> 2 ^ 53 / em"
      using W53 em(3) by (simp add: divide_right_mono)
    also have "\<dots> \<le> 2 ^ 53 / (1 / 240000)"
      using em_lo by (intro divide_left_mono) simp_all
    also have "\<dots> \<le> 2361183241434822606848"
      by simp
    finally show ?thesis .
  qed
  ultimately obtain y where y: "js_div (Finite W) (Finite em) = Finite y" "near 1 (W / em) y"
    using js_div_near [of em W 2361183241434822606848] is_double_2_71 em(3) by auto
  have "0 < E / 60000"
    using E1 by simp
  then have "near 2 (W / (E / 60000)) (W / em)"
    using n2 em(3) W1 by (intro near_inverse) simp_all
  then have "near (2 + 1) (W / (E / 60000)) y"
    using y(2) by (rule near_trans)
  moreover have "(2::nat) + 1 = 3"
    by simp
  ultimately have "near 3 (W / (E / 60000)) y"
    by (simp only:)
  moreover have "submit_wpm input elapsed = Finite y"
    by (simp only: submit_wpm_def elapsedSeconds_def fE es(1) em(1) W_def [symmetric] y(1))
  ultimately show ?thesis
    unfolding W_def E_def by blast
qed

text \<open>
  The live computation: \<open>Math.round\<close> of a value two roundings away from the exact words
  per minute.
\<close>

lemma local_wpm_near:
  assumes e: "0 < elapsed" "elapsed < 2 ^ 53" and w: "words input \<le> 2 ^ 53"
  shows "\<exists>y. local_wpm input elapsed = Finite (of_int (round y))
             \<and> near 2 (of_nat (words input) / (of_int elapsed / 60000)) y"
proof -
  define E :: rat where "E = of_int elapsed"
  define W :: rat where "W = of_nat (words input)"
  have E1: "1 \<le> E"
    unfolding E_def using e(1) by (metis int_one_le_iff_zero_less of_int_1 of_int_le_iff)
  have dE: "is_double E"
    unfolding E_def using e by (intro is_double_of_int) simp_all
  have fE: "fround (of_int elapsed) = Finite E"
    using dE by (simp add: is_double_def E_def)
  have W1: "1 \<le> W"
    unfolding W_def using words_bounds(1) [of input] by (metis of_nat_1 of_nat_le_iff)
  have "W \<le> of_nat (2 ^ 53)"
    unfolding W_def using w by (simp only: of_nat_le_iff)
  then have W53: "W \<le> 2 ^ 53" by simp
  have "E \<le> of_int (2 ^ 53)"
    unfolding E_def using e(2) by (simp only: of_int_le_iff less_imp_le)
  then have E53: "E \<le> 2 ^ 53" by simp
  have "pow2 (- 1022) \<le> E / 60000"
    using tiny E1 by (simp add: field_simps)
  moreover have "E / 60000 \<le> E"
    using E1 by simp
  ultimately obtain em where em: "js_div (Finite E) (Finite 60000) = Finite em"
    "near 1 (E / 60000) em" "0 < em" "em \<le> E"
    using js_div_near [of 60000 E E] dE by auto
  have em_lo: "1 / 240000 \<le> em"
    using near_lower_half [OF em(2)] E1 by simp
  have "1 / 2 ^ 53 \<le> 1 / em"
    using em(3,4) E53 by (intro divide_left_mono) simp_all
  also have "1 / em \<le> W / em"
    using W1 em(3) by (simp add: divide_right_mono)
  finally have "pow2 (- 1022) \<le> W / em"
    using tiny by simp
  moreover have "W / em \<le> 2361183241434822606848"
  proof -
    have "W / em \<le> 2 ^ 53 / em"
      using W53 em(3) by (simp add: divide_right_mono)
    also have "\<dots> \<le> 2 ^ 53 / (1 / 240000)"
      using em_lo by (intro divide_left_mono) simp_all
    also have "\<dots> \<le> 2361183241434822606848"
      by simp
    finally show ?thesis .
  qed
  ultimately obtain y where y: "js_div (Finite W) (Finite em) = Finite y" "near 1 (W / em) y"
    using js_div_near [of em W 2361183241434822606848] is_double_2_71 em(3) by auto
  have "0 < E / 60000"
    using E1 by simp
  then have "near 1 (W / (E / 60000)) (W / em)"
    using em(2,3) W1 by (intro near_inverse) simp_all
  then have "near (1 + 1) (W / (E / 60000)) y"
    using y(2) by (rule near_trans)
  then have "near 2 (W / (E / 60000)) y"
    by (simp only: one_add_one)
  moreover have "elapsedMinutes elapsed = Finite em"
    using em(1) by (simp add: elapsedMinutes_def fE)
  then have "local_wpm input elapsed = Finite (of_int (round y))"
    using em(3) y(1) by (simp add: local_wpm_def W_def [symmetric] round_def)
  ultimately show ?thesis
    unfolding W_def E_def by blast
qed

lemma local_wpm_no_elapsed:
  assumes "elapsed \<le> 0"
  shows "local_wpm input elapsed = Finite 0"
proof -
  have "(of_int elapsed :: rat) \<le> 0" using assms by simp
  then consider "fround (of_int elapsed) = NegInfinity"
    | y where "fround (of_int elapsed) = Finite y" "y \<le> 0"
    using fround_nonpos by blast
  then have "\<not> js_gt (elapsedMinutes elapsed) (Finite 0)"
  proof cases
    case 1
    then show ?thesis by (simp add: elapsedMinutes_def)
  next
    case 2
    have "y / 60000 \<le> 0" using 2(2) by simp
    then consider "fround (y / 60000) = NegInfinity"
      | z where "fround (y / 60000) = Finite z" "z \<le> 0"
      using fround_nonpos by blast
    then show ?thesis
      by cases (simp_all add: elapsedMinutes_def 2(1))
  qed
  then show ?thesis
    by (simp add: local_wpm_def)
qed

lemma words_quick_brown_fox: "words (ascii ''The quick brown fox jumps'') = 5"
  by code_simp

text \<open>
  C2, as the claim states it, fails in several places. The live WPM is rounded: two words in
  90 seconds are 4/3 words per minute and \<open>calculateLocalMetrics\<close> reports 1. The divisions
  are divisions of doubles: the final computation reports the double nearest to the quotient
  of rounded operands, not 4/3, and three words in 1600 ms, which are exactly 112.5 words per
  minute, come out just below 112.5, so that the live computation reports 112 where rounding
  the exact value gives 113. The empty typed string has the word count 1, not 0. The final
  computation has no guard: with no elapsed time it divides by zero and reports \<open>Infinity\<close>,
  not 0.
\<close>

theorem wpm_counterexample:
  "wordCount (ascii ''a b'') = 2
   \<and> words (ascii ''a b'') = 2
   \<and> local_wpm (ascii ''a b'') 90000 = Finite 1
   \<and> Finite 1 \<noteq> Finite (2 / (90 / 60))
   \<and> submit_wpm (ascii ''a b'') 90000 = Finite (6004799503160661 / 4503599627370496)
   \<and> Finite (6004799503160661 / 4503599627370496) \<noteq> Finite (2 / (90 / 60))
   \<and> words (ascii ''a b c'') = 3
   \<and> local_wpm (ascii ''a b c'') 1600 = Finite 112
   \<and> round (3 / (1600 / 60000) :: rat) = 113
   \<and> wordCount [] = 0
   \<and> words [] = 1
   \<and> submit_wpm (ascii ''a b'') 0 = PosInfinity"
  by code_simp

text \<open>
  C2, amended: for every typed string with at least one code unit that is not whitespace,
  the word count of both computations is the number of its non-empty whitespace-separated
  tokens. Let \<open>w\<close> be the word count divided by the elapsed minutes, for an elapsed time
  above zero and below \<open>2^53\<close> milliseconds and a typed string of fewer than \<open>2^53\<close> code
  units. The WPM of \<open>submitTest\<close> is a finite double \<open>y\<close> that differs from \<open>w\<close> by at
  most \<open>w / 2^51\<close>: its three divisions round three times. The WPM of
  \<open>calculateLocalMetrics\<close> is \<open>Math.round\<close> of such a double. With no elapsed time the
  live WPM is 0. The string "The quick brown fox jumps" has 5 words, and at one minute both
  computations give 5.
\<close>

theorem wpm_amended:
  "((\<exists>c\<in>set input. \<not> is_whitespace c) \<longrightarrow> words input = wordCount input)
   \<and> (0 < elapsed \<and> elapsed < 2 ^ 53 \<and> length input < 2 ^ 53 \<longrightarrow>
        (let w = of_nat (words input) / (of_int elapsed / 60000)
         in (\<exists>y. submit_wpm input elapsed = Finite y \<and> \<bar>y - w\<bar> \<le> w / 2 ^ 51)
            \<and> (\<exists>y. local_wpm input elapsed = Finite (of_int (round y))
                    \<and> \<bar>y - w\<bar> \<le> w / 2 ^ 51)))
   \<and> (elapsed \<le> 0 \<longrightarrow> local_wpm input elapsed = Finite 0)
   \<and> words (ascii ''The quick brown fox jumps'') = 5
   \<and> submit_wpm (ascii ''The quick brown fox jumps'') 60000 = Finite 5
   \<and> local_wpm (ascii ''The quick brown fox jumps'') 60000 = Finite 5"
proof (intro conjI impI)
  assume "\<exists>c\<in>set input. \<not> is_whitespace c"
  then show "words input = wordCount input" by (rule words_eq_wordCount)
next
  assume a: "0 < elapsed \<and> elapsed < 2 ^ 53 \<and> length input < 2 ^ 53"
  define w :: rat where "w = of_nat (words input) / (of_int elapsed / 60000)"
  have w0: "0 \<le> w"
    unfolding w_def using a by simp
  have ws: "words input \<le> 2 ^ 53"
    using words_bounds(2) [of input] a by linarith
  obtain y where y: "submit_wpm input elapsed = Finite y" "near 3 w y"
    using submit_wpm_near [of elapsed input] a ws unfolding w_def by blast
  have "\<bar>y - w\<bar> \<le> w / 2 ^ 51"
    using y(2) w0 by (rule near_error) simp
  then have 1: "\<exists>y. submit_wpm input elapsed = Finite y \<and> \<bar>y - w\<bar> \<le> w / 2 ^ 51"
    using y(1) by blast
  obtain z where z: "local_wpm input elapsed = Finite (of_int (round z))" "near 2 w z"
    using local_wpm_near [of elapsed input] a ws unfolding w_def by blast
  have "\<bar>z - w\<bar> \<le> w / 2 ^ 51"
    using z(2) w0 by (rule near_error) simp
  then have 2: "\<exists>y. local_wpm input elapsed = Finite (of_int (round y)) \<and> \<bar>y - w\<bar> \<le> w / 2 ^ 51"
    using z(1) by blast
  from 1 2 show "let w = of_nat (words input) / (of_int elapsed / 60000)
         in (\<exists>y. submit_wpm input elapsed = Finite y \<and> \<bar>y - w\<bar> \<le> w / 2 ^ 51)
            \<and> (\<exists>y. local_wpm input elapsed = Finite (of_int (round y))
                    \<and> \<bar>y - w\<bar> \<le> w / 2 ^ 51)"
    unfolding Let_def w_def by (rule conjI)
next
  assume "elapsed \<le> 0"
  then show "local_wpm input elapsed = Finite 0" by (rule local_wpm_no_elapsed)
next
  show "words (ascii ''The quick brown fox jumps'') = 5"
    by (rule words_quick_brown_fox)
  show "submit_wpm (ascii ''The quick brown fox jumps'') 60000 = Finite 5"
    by code_simp
  show "local_wpm (ascii ''The quick brown fox jumps'') 60000 = Finite 5"
    by code_simp
qed

theorem wpm_amended_witness:
  "(\<exists>c\<in>set (ascii ''a b''). \<not> is_whitespace c)
   \<and> words (ascii ''a b'') = wordCount (ascii ''a b'')
   \<and> (0::int) < 90000 \<and> (90000::int) < 2 ^ 53 \<and> length (ascii ''a b'') < 2 ^ 53
   \<and> submit_wpm (ascii ''a b'') 90000 = Finite (6004799503160661 / 4503599627370496)
   \<and> \<bar>6004799503160661 / 4503599627370496 - 4 / 3 :: rat\<bar> \<le> 4 / 3 / 2 ^ 51
   \<and> local_wpm (ascii ''a b'') 90000 = Finite 1
   \<and> local_wpm (ascii ''a b'') 0 = Finite 0"
proof -
  have ne: "\<exists>c\<in>set (ascii ''a b''). \<not> is_whitespace c"
    by (simp add: ascii_def is_whitespace_def)
  have len: "length (ascii ''a b'') < 2 ^ 53"
    by (simp add: ascii_def)
  have w: "words (ascii ''a b'') = 2"
    by code_simp
  have s: "submit_wpm (ascii ''a b'') 90000 = Finite (6004799503160661 / 4503599627370496)"
    by code_simp
  have l: "local_wpm (ascii ''a b'') 90000 = Finite 1"
    by code_simp
  show ?thesis
    using wpm_amended [of "ascii ''a b''" 90000] wpm_amended [of "ascii ''a b''" 0] ne len
    unfolding Let_def w s l by simp
qed

subsection \<open>Accuracy\<close>

text \<open>The loop counts the positions below both lengths where the code units agree.\<close>

lemma correctChars_loop_filter:
  "correctChars_loop input p i acc
     = acc + length (filter (\<lambda>j. input ! j = p ! j) [i..<min (length input) (length p)])"
proof (induction input p i acc rule: correctChars_loop.induct)
  case (1 input p i acc)
  define m where "m = min (length input) (length p)"
  show ?case
  proof (cases "i < m")
    case True
    have unf: "correctChars_loop input p i acc
                 = correctChars_loop input p (i + 1) (if input ! i = p ! i then acc + 1 else acc)"
      using True unfolding m_def by (subst correctChars_loop.simps) (simp only: if_True)
    have ih: "correctChars_loop input p (i + 1) (if input ! i = p ! i then acc + 1 else acc)
                = (if input ! i = p ! i then acc + 1 else acc)
                  + length (filter (\<lambda>j. input ! j = p ! j) [i + 1..<m])"
      using True unfolding m_def by (rule "1.IH")
    have upt: "[i..<m] = i # [i + 1..<m]"
      using True by (simp add: upt_conv_Cons)
    show ?thesis
      unfolding unf ih m_def [symmetric] upt by simp
  next
    case False
    have stop: "correctChars_loop input p i acc = acc"
      using False unfolding m_def by (subst correctChars_loop.simps) (simp only: if_False)
    have none: "[i..<m] = []"
      using False by simp
    show ?thesis
      unfolding stop m_def [symmetric] none by simp
  qed
qed

lemma correctChars_filter:
  "correctChars input p
     = length (filter (\<lambda>j. input ! j = p ! j) [0..<min (length input) (length p)])"
  unfolding correctChars_def correctChars_loop_filter by simp

lemma correctChars_card:
  "correctChars input p
     = card {i. i < min (length input) (length p) \<and> input ! i = p ! i}"
  unfolding correctChars_filter
  by (simp add: length_filter_conv_card cong: conj_cong)

lemma correctChars_le: "correctChars input p \<le> length p"
proof -
  have "correctChars input p \<le> length [0..<min (length input) (length p)]"
    unfolding correctChars_filter by (rule length_filter_le)
  then show ?thesis by simp
qed

lemma correctChars_le_input: "correctChars input p \<le> length input"
proof -
  have "correctChars input p \<le> length [0..<min (length input) (length p)]"
    unfolding correctChars_filter by (rule length_filter_le)
  then show ?thesis by simp
qed

text \<open>
  The quotient \<open>correctChars / prompt.length\<close> and its product with 100 each round once;
  the result stays between 0 and 100, since 0, 1 and 100 are doubles and rounding is
  monotone.
\<close>

lemma accuracy_near:
  fixes input p :: "16 word list"
  assumes ne: "p \<noteq> []" and len: "length p < 2 ^ 53"
  shows "\<exists>a. js_mul (js_div (Finite (of_nat (correctChars input p))) (js_length p)) (Finite 100)
               = Finite a
             \<and> near 2 (100 * of_nat (correctChars input p) / of_nat (length p)) a
             \<and> 0 \<le> a \<and> a \<le> 100"
proof (cases "correctChars input p = 0")
  case True
  have "js_mul (js_div (Finite (of_nat (correctChars input p))) (js_length p)) (Finite 100)
          = Finite 0"
    using ne by (simp add: True js_length_def)
  moreover have "near 2 (100 * of_nat (correctChars input p) / of_nat (length p)) 0"
    by (simp add: True near_def)
  ultimately show ?thesis by simp
next
  case False
  define C :: rat where "C = of_nat (correctChars input p)"
  define L :: rat where "L = of_nat (length p)"
  have C1: "1 \<le> C"
    unfolding C_def using False by simp
  have L0: "0 < L"
    unfolding L_def using ne by simp
  have "C \<le> L"
    unfolding C_def L_def using correctChars_le [of input p] by (simp only: of_nat_le_iff)
  then have q1: "C / L \<le> 1"
    using L0 by simp
  have "L \<le> of_nat (2 ^ 53)"
    unfolding L_def using len by (simp only: of_nat_le_iff less_imp_le)
  then have L53: "L \<le> 2 ^ 53" by simp
  have "1 / 2 ^ 53 \<le> 1 / L"
    using L0 L53 by (intro divide_left_mono) simp_all
  also have "1 / L \<le> C / L"
    using C1 L0 by (simp add: divide_right_mono)
  finally have lo: "1 / 2 ^ 53 \<le> C / L" .
  then have "pow2 (- 1022) \<le> C / L"
    using tiny by simp
  then obtain q where q: "js_div (Finite C) (Finite L) = Finite q"
    "near 1 (C / L) q" "0 < q" "q \<le> 1"
    using js_div_near [of L C 1] L0 q1 is_double_1 by auto
  have half: "C / L / 2 \<le> q"
    using near_lower_half [OF q(2)] C1 L0 by simp
  have "1 / 2 ^ 53 / 2 \<le> C / L / 2"
    using lo by (rule divide_right_mono) simp
  then have "1 / 2 ^ 53 / 2 \<le> q"
    using half by (rule order_trans)
  then have "pow2 (- 1022) \<le> q * 100"
    using tiny by simp
  moreover have "q * 100 \<le> 100"
    using q(4) by simp
  ultimately obtain a where a: "js_mul (Finite q) (Finite 100) = Finite a"
    "near 1 (q * 100) a" "0 < a" "a \<le> 100"
    using js_mul_near [of q 100 100] is_double_100 by auto
  have "near 1 (C / L * 100) (q * 100)"
    using q(2) by (intro near_scale(1)) simp_all
  then have "near (1 + 1) (C / L * 100) a"
    using a(2) by (rule near_trans)
  moreover have "C / L * 100 = 100 * C / L"
    by simp
  ultimately have "near 2 (100 * C / L) a"
    by (simp only: one_add_one)
  moreover have "js_mul (js_div (Finite C) (js_length p)) (Finite 100) = Finite a"
    by (simp only: js_length_def L_def [symmetric] q(1) a(1))
  ultimately show ?thesis
    using a(3,4) unfolding C_def L_def by auto
qed

text \<open>
  C1, as the claim states it, fails in three places. The live accuracy is rounded: one correct
  code unit of a prompt of three is 100/3 percent and \<open>calculateLocalMetrics\<close> reports 33.
  The quotient and the product are those of doubles: the final computation reports the
  double nearest to the product of the rounded quotient, not 100/3, and 23 correct code
  units of a prompt of 40, which are exactly 57.5 percent, come out just below 57.5, so
  that the live computation reports 57 where rounding the exact value gives 58. The final
  computation has no guard for the empty prompt: it divides 0 by 0 and reports NaN, not 100.
\<close>

theorem accuracy_counterexample:
  "correctChars (ascii ''a'') (ascii ''abc'') = 1
   \<and> local_accuracy (ascii ''abc'') (ascii ''a'') = Finite 33
   \<and> Finite 33 \<noteq> Finite (100 * 1 / 3)
   \<and> submit_accuracy (ascii ''abc'') (ascii ''a'') = Finite (2345624805922133 / 70368744177664)
   \<and> Finite (2345624805922133 / 70368744177664) \<noteq> Finite (100 * 1 / 3)
   \<and> correctChars (replicate 23 97) (replicate 40 97) = 23
   \<and> local_accuracy (replicate 40 97) (replicate 23 97) = Finite 57
   \<and> round (100 * 23 / 40 :: rat) = 58
   \<and> submit_accuracy [] (ascii ''a'') = NaN"
  by code_simp

text \<open>
  C1, amended: \<open>correctChars\<close> is the number of positions \<open>i\<close> below both lengths with
  \<open>input[i]\<close> equal to \<open>prompt[i]\<close>, in both computations. The live accuracy is 100 for
  the empty prompt. For every prompt \<open>p\<close> that is not empty and has fewer than \<open>2^53\<close>
  code units: the accuracy of \<open>submitTest\<close> is a finite double \<open>a\<close> that differs from
  \<open>100 * correctChars / length p\<close> by at most that value divided by \<open>2^51\<close> (the
  quotient and the product each round once); the accuracy of \<open>calculateLocalMetrics\<close> is
  \<open>Math.round\<close> of the same double \<open>a\<close>; and both \<open>a\<close> and its rounding lie between
  0 and 100.
\<close>

theorem accuracy_amended:
  "correctChars input p
     = card {i. i < min (length input) (length p) \<and> input ! i = p ! i}
   \<and> local_accuracy [] input = Finite 100
   \<and> (p \<noteq> [] \<and> length p < 2 ^ 53 \<longrightarrow>
        (let e = 100 * of_nat (correctChars input p) / of_nat (length p)
         in \<exists>a. submit_accuracy p input = Finite a
                \<and> local_accuracy p input = Finite (of_int (round a))
                \<and> \<bar>a - e\<bar> \<le> e / 2 ^ 51
                \<and> 0 \<le> a \<and> a \<le> 100 \<and> 0 \<le> round a \<and> round a \<le> 100))"
proof (intro conjI impI)
  show "correctChars input p
     = card {i. i < min (length input) (length p) \<and> input ! i = p ! i}"
    by (rule correctChars_card)
  show "local_accuracy [] input = Finite 100"
    by (simp add: local_accuracy_def)
  assume h: "p \<noteq> [] \<and> length p < 2 ^ 53"
  define e :: rat where "e = 100 * of_nat (correctChars input p) / of_nat (length p)"
  have e0: "0 \<le> e"
    unfolding e_def by simp
  obtain a where a: "js_mul (js_div (Finite (of_nat (correctChars input p))) (js_length p))
                       (Finite 100) = Finite a" "near 2 e a" "0 \<le> a" "a \<le> 100"
    using accuracy_near [of p input] h unfolding e_def by blast
  have 1: "submit_accuracy p input = Finite a"
    by (simp only: submit_accuracy_def a(1))
  have 2: "local_accuracy p input = Finite (of_int (round a))"
    using h by (simp add: local_accuracy_def a(1) round_def)
  have 3: "\<bar>a - e\<bar> \<le> e / 2 ^ 51"
    using a(2) e0 by (rule near_error) simp
  have 4: "0 \<le> round a"
    using round_mono [OF a(3)] by simp
  have 5: "round a \<le> 100"
    using round_mono [OF a(4)] by simp
  show "let e = 100 * of_nat (correctChars input p) / of_nat (length p)
         in \<exists>a. submit_accuracy p input = Finite a
                \<and> local_accuracy p input = Finite (of_int (round a))
                \<and> \<bar>a - e\<bar> \<le> e / 2 ^ 51
                \<and> 0 \<le> a \<and> a \<le> 100 \<and> 0 \<le> round a \<and> round a \<le> 100"
    unfolding Let_def e_def [symmetric] using 1 2 3 4 5 a(3,4) by blast
qed

theorem accuracy_amended_witness:
  "ascii ''abc'' \<noteq> [] \<and> length (ascii ''abc'') < 2 ^ 53
   \<and> correctChars (ascii ''abd'') (ascii ''abc'') = 2
   \<and> submit_accuracy (ascii ''abc'') (ascii ''abd'') = Finite (2345624805922133 / 35184372088832)
   \<and> local_accuracy (ascii ''abc'') (ascii ''abd'') = Finite 67
   \<and> \<bar>2345624805922133 / 35184372088832 - 200 / 3 :: rat\<bar> \<le> 200 / 3 / 2 ^ 51"
proof -
  have ne: "ascii ''abc'' \<noteq> []" "length (ascii ''abc'') < 2 ^ 53"
    by (simp_all add: ascii_def)
  have c: "correctChars (ascii ''abd'') (ascii ''abc'') = 2"
    by code_simp
  have s: "submit_accuracy (ascii ''abc'') (ascii ''abd'') = Finite (2345624805922133 / 35184372088832)"
    by code_simp
  have l: "local_accuracy (ascii ''abc'') (ascii ''abd'') = Finite 67"
    by code_simp
  show ?thesis
    using accuracy_amended [of "ascii ''abd''" "ascii ''abc''"] ne
    unfolding Let_def c s l by simp
qed

subsection \<open>The session timer\<close>

text \<open>
  Every timer that still ticks is the one whose handle \<open>this.state.timer\<close> holds:
  \<open>startTimer\<close>, the only caller of \<open>setInterval\<close>, clears the handle it replaces.
\<close>

lemma step_timer_invariant:
  "intervals st \<subseteq> set_option (timer st) \<Longrightarrow>
     intervals (step st e) \<subseteq> set_option (timer (step st e))"
  by (cases e)
     (auto simp: logout_def startNewTest_def resetMetrics_def handleTyping_def
        calculateLocalMetrics_def startTimer_def setInterval_def clearInterval_def
        submitTest_def finishTest_def resetTest_def timer_tick_def Let_def
        split: option.splits prod.splits if_splits)

lemma foldl_step_timer_invariant:
  "intervals st \<subseteq> set_option (timer st) \<Longrightarrow>
     intervals (foldl step st events) \<subseteq> set_option (timer (foldl step st events))"
  by (induction events arbitrary: st) (simp_all add: step_timer_invariant)

lemma run_timer_invariant: "intervals (run events) \<subseteq> set_option (timer (run events))"
  unfolding run_def by (rule foldl_step_timer_invariant) (simp add: initial_app_def)

text \<open>A test that is running: after the first keystroke the timer with handle 1 ticks.\<close>

lemma timer_ticks_while_running:
  "intervals (run [Login, StartNewTest (Some (ascii ''abc'', ''easy'')), Typing 1000 (ascii ''a'')])
     = {1}"
  by (simp add: run_def initial_app_def startNewTest_def resetMetrics_def handleTyping_def
      startTimer_def setInterval_def calculateLocalMetrics_def Let_def)

text \<open>
  A submission that the server accepts ends the test through \<open>finishTest\<close>; one that fails
  leaves the state, and with it a running timer, as it was.
\<close>

lemma submitTest_accepted_clears_timer:
  assumes "currentTest (run events) \<noteq> None" and "isAuthenticated (run events)"
  shows "intervals (step (run events) (Submit now input True)) = {}"
  using assms run_timer_invariant [of events]
  by (auto simp: submitTest_def finishTest_def clearInterval_def split: option.splits)

lemma submitTest_failed_unchanged:
  "step st (Submit now input False) = st"
  by (simp add: submitTest_def split: option.splits)

text \<open>
  C9: in every state that the application reaches, by any sequence of events,
  \<open>finishTest\<close>, \<open>resetTest\<close> and \<open>logout\<close> leave no repeating timer registered;
  \<open>finishTest\<close> and \<open>resetTest\<close> also reset the handle to \<open>null\<close>.
\<close>

theorem timer_cleared_on_leaving_running:
  "intervals (finishTest (run events)) = {}
   \<and> timer (finishTest (run events)) = None
   \<and> intervals (resetTest (run events)) = {}
   \<and> timer (resetTest (run events)) = None
   \<and> intervals (logout (run events)) = {}"
  using run_timer_invariant [of events]
  by (auto simp: finishTest_def resetTest_def logout_def clearInterval_def resetMetrics_def
      Let_def split: option.splits)

end
